theory Spec2Isabelle
  imports Main "HOL-Library.AList" "HOL-Library.Product_Lexorder"
begin

section \<open>Values, dictionaries and strings\<close>

text \<open>
  The scripts work on what \<^verbatim>\<open>json.loads\<close> returns: \<^verbatim>\<open>None\<close>, booleans, integers,
  floats, strings, lists and dictionaries. A dictionary keeps its keys in insertion order,
  so it is an association list; \<^verbatim>\<open>d[k] = v\<close> is \<open>AList.update k v d\<close> (replace in
  place, or append a new key at the end), \<^verbatim>\<open>k in d\<close> is \<open>map_of d k \<noteq> None\<close>.
  A float is carried as the bit pattern of its double and never inspected.
  Strings are lists of 8-bit characters: the text is taken to be ASCII.
\<close>

datatype json =
    JNull
  | JBool bool
  | JInt int
  | JFloat nat
  | JStr string
  | JArr "json list"
  | JObj "(string \<times> json) list"

type_synonym pydict = "(string \<times> json) list"

text \<open>\<^verbatim>\<open>d.get(k)\<close>: the value, or \<^verbatim>\<open>None\<close> when the key is missing.\<close>

definition dict_get :: "pydict \<Rightarrow> string \<Rightarrow> json" where
  "dict_get d k = (case map_of d k of None \<Rightarrow> JNull | Some v \<Rightarrow> v)"

text \<open>An optional string stored in a record: \<^verbatim>\<open>None\<close> becomes \<^verbatim>\<open>null\<close>.\<close>

definition opt_str :: "string option \<Rightarrow> json" where
  "opt_str s = (case s of None \<Rightarrow> JNull | Some t \<Rightarrow> JStr t)"

definition opt_int :: "int option \<Rightarrow> json" where
  "opt_int s = (case s of None \<Rightarrow> JNull | Some i \<Rightarrow> JInt i)"

text \<open>\<^verbatim>\<open>str.strip()\<close> and \<^verbatim>\<open>str.lower()\<close> on ASCII text.\<close>

definition is_space :: "char \<Rightarrow> bool" where
  "is_space c = (c \<in> {CHR 0x09, CHR 0x0A, CHR 0x0B, CHR 0x0C, CHR 0x0D,
                       CHR 0x1C, CHR 0x1D, CHR 0x1E, CHR 0x1F, CHR 0x20})"

definition strip :: "string \<Rightarrow> string" where
  "strip s = rev (dropWhile is_space (rev (dropWhile is_space s)))"

definition lower_char :: "char \<Rightarrow> char" where
  "lower_char c =
     (case map_of (zip ''ABCDEFGHIJKLMNOPQRSTUVWXYZ'' ''abcdefghijklmnopqrstuvwxyz'') c of
        None \<Rightarrow> c | Some d \<Rightarrow> d)"

definition lower :: "string \<Rightarrow> string" where
  "lower s = map lower_char s"

definition is_digit :: "char \<Rightarrow> bool" where
  "is_digit c = (c \<in> set ''0123456789'')"

text \<open>
  Exceptions that leave a function. \<^verbatim>\<open>urlparse\<close> raises \<^verbatim>\<open>ValueError\<close> on some inputs
  (an unbalanced IPv6 bracket, for one); reading a missing file raises \<^verbatim>\<open>OSError\<close>.
\<close>

datatype error = ValueError | OSError | JSONDecodeError | CsvError | UnicodeEncodeError

text \<open>
  \<^verbatim>\<open>urllib.parse.urlparse\<close> is a library function: every definition that calls it takes
  it as the parameter \<open>up\<close>, with \<open>None\<close> for a raised \<^verbatim>\<open>ValueError\<close>. Only the three
  components the scripts read are kept.
\<close>

record parse_result =
  scheme :: string
  netloc :: string
  path :: string

type_synonym urlparse = "string \<Rightarrow> parse_result option"

section \<open>apply\_url\_check\_summary.py\<close>

text \<open>
  \<^verbatim>\<open>CIVICPLUS_PAGEID_RE = re.compile(r"^/(\d{2,6})/[^/]+", re.IGNORECASE)\<close>, used with
  \<^verbatim>\<open>.match\<close>: a slash, \<open>k\<close> digits for some \<open>k\<close> from 2 to 6, a slash, and one
  character that is not a slash.
\<close>

definition CIVICPLUS_PAGEID_RE :: "string \<Rightarrow> bool" where
  "CIVICPLUS_PAGEID_RE p =
     (\<exists>k \<in> set [2..<7].
        k + 3 \<le> length p \<and> p ! 0 = CHR ''/'' \<and>
        (\<forall>c \<in> set (take k (drop 1 p)). is_digit c) \<and>
        p ! (k + 1) = CHR ''/'' \<and> p ! (k + 2) \<noteq> CHR ''/'')"

definition UPDATE_CANONICAL_ON_REDIRECT :: bool where
  "UPDATE_CANONICAL_ON_REDIRECT = True"

definition UPDATE_CANONICAL_ON_CIVICPLUS_PAGEID :: bool where
  "UPDATE_CANONICAL_ON_CIVICPLUS_PAGEID = True"

definition DO_NOT_REWRITE_STATUSES :: "int set" where
  "DO_NOT_REWRITE_STATUSES = {401, 403}"

text \<open>\<^verbatim>\<open>parse_iso_any\<close>; \<open>now\<close> is what \<^verbatim>\<open>datetime.now().isoformat()\<close> returns.\<close>

definition parse_iso_any :: "string \<Rightarrow> string \<Rightarrow> string" where
  "parse_iso_any now s = (if strip s \<noteq> [] then strip s else now)"

text \<open>
  \<^verbatim>\<open>homepage\<close> has no \<^verbatim>\<open>try\<close>: a \<^verbatim>\<open>ValueError\<close> of \<^verbatim>\<open>urlparse\<close> leaves it.
  Its argument is any value (\<^verbatim>\<open>isinstance(url, str)\<close> is tested first).
\<close>

definition homepage :: "urlparse \<Rightarrow> json \<Rightarrow> error + string option" where
  "homepage up url =
     (case url of
        JStr s \<Rightarrow>
          if strip s = [] then Inr None
          else (case up (strip s) of
                  None \<Rightarrow> Inl ValueError
                | Some u \<Rightarrow>
                    if scheme u = [] \<or> netloc u = [] then Inr None
                    else Inr (Some (scheme u @ ''://'' @ netloc u @ ''/'')))
      | _ \<Rightarrow> Inr None)"

text \<open>\<^verbatim>\<open>civicplus_pageid_path\<close> catches every exception and returns \<^verbatim>\<open>None\<close>.\<close>

definition civicplus_pageid_path :: "urlparse \<Rightarrow> string \<Rightarrow> string option" where
  "civicplus_pageid_path up u =
     (case up u of
        None \<Rightarrow> None
      | Some r \<Rightarrow> if CIVICPLUS_PAGEID_RE (path r) then Some (path r) else None)"

definition field_to_prefix :: "string \<Rightarrow> string option" where
  "field_to_prefix field =
     (if field = ''Employment Page URL'' then Some ''employment''
      else if field = ''Application Form URL'' then Some ''application''
      else None)"

text \<open>
  A row of \<^verbatim>\<open>csv.DictReader\<close>: column name to cell, a missing cell being \<^verbatim>\<open>None\<close>.
  \<open>cell row k\<close> is \<^verbatim>\<open>row.get(k) or ""\<close>.
\<close>

type_synonym row = "string \<rightharpoonup> string"

definition cell :: "row \<Rightarrow> string \<Rightarrow> string" where
  "cell r k = (case r k of None \<Rightarrow> [] | Some s \<Rightarrow> s)"

text \<open>The state of the loop: the record being updated and the counter \<^verbatim>\<open>updates\<close>.\<close>

type_synonym rstate = "pydict \<times> nat"

text \<open>Lines 123 to 127: the five metadata fields.\<close>

definition stamp_metadata ::
  "string \<Rightarrow> int option \<Rightarrow> string option \<Rightarrow> string \<Rightarrow> bool \<Rightarrow> string option \<Rightarrow> pydict \<Rightarrow> pydict"
where
  "stamp_metadata prefix status final_url checked_at soft404 err rec =
     AList.update (prefix @ ''_url_error'') (opt_str err)
       (AList.update (prefix @ ''_url_soft404'') (JBool soft404)
          (AList.update (prefix @ ''_url_last_checked_at'') (JStr checked_at)
             (AList.update (prefix @ ''_url_final'') (opt_str final_url)
                (AList.update (prefix @ ''_url_status_code'') (opt_int status) rec))))"

text \<open>Lines 130 to 136: \<^verbatim>\<open>homepage(...) or rec["Town Website"]\<close>.\<close>

definition ensure_town_website :: "urlparse \<Rightarrow> string \<Rightarrow> pydict \<Rightarrow> error + pydict" where
  "ensure_town_website up field rec =
     (case dict_get rec ''Town Website'' of
        JStr w \<Rightarrow>
          (case homepage up (JStr w) of
             Inl e \<Rightarrow> Inl e
           | Inr None \<Rightarrow> Inr (AList.update ''Town Website'' (JStr w) rec)
           | Inr (Some h) \<Rightarrow> Inr (AList.update ''Town Website'' (JStr h) rec))
      | _ \<Rightarrow>
          (case dict_get rec field of
             JStr cur \<Rightarrow>
               (case homepage up (JStr cur) of
                  Inl e \<Rightarrow> Inl e
                | Inr None \<Rightarrow>
                    Inr (AList.update ''Town Website'' (dict_get rec ''Town Website'') rec)
                | Inr (Some h) \<Rightarrow> Inr (AList.update ''Town Website'' (JStr h) rec))
           | _ \<Rightarrow> Inr rec))"

text \<open>Lines 147 to 151: the redirect rewrite.\<close>

definition redirect_rule :: "string \<Rightarrow> string \<Rightarrow> int \<Rightarrow> string \<Rightarrow> string \<Rightarrow> rstate \<Rightarrow> rstate" where
  "redirect_rule field prefix status final_url cur_url st =
     (if UPDATE_CANONICAL_ON_REDIRECT \<and> status < 400 \<and> final_url \<noteq> cur_url
      then (AList.update (prefix @ ''_url_confidence'') (JInt 95)
              (AList.update (prefix @ ''_url_change_reason'') (JStr ''redirect_canonicalized'')
                 (AList.update field (JStr final_url) (fst st))),
            snd st + 1)
      else st)"

text \<open>Lines 154 to 161: the CivicPlus page-id rewrite.\<close>

definition civicplus_rule ::
  "urlparse \<Rightarrow> string \<Rightarrow> string \<Rightarrow> int \<Rightarrow> string \<Rightarrow> string \<Rightarrow> rstate \<Rightarrow> rstate"
where
  "civicplus_rule up field prefix status final_url cur_url st =
     (if UPDATE_CANONICAL_ON_CIVICPLUS_PAGEID \<and> status < 400 \<and> final_url \<noteq> []
      then (let cur_pid = (civicplus_pageid_path up cur_url \<noteq> None);
                fin_pid = (civicplus_pageid_path up final_url \<noteq> None)
            in if fin_pid \<and> \<not> cur_pid
               then (AList.update (prefix @ ''_url_confidence'') (JInt 95)
                       (AList.update (prefix @ ''_url_change_reason'')
                          (JStr ''civicplus_pageid_canonicalized'')
                          (AList.update field (JStr final_url) (fst st))),
                     snd st + 1)
               else st)
      else st)"

text \<open>
  Lines 139 to 161. \<^verbatim>\<open>cur_url\<close> is read once, before either rule; both rules test
  that value.
\<close>

definition rewrite_canonical ::
  "urlparse \<Rightarrow> string \<Rightarrow> string \<Rightarrow> int option \<Rightarrow> string option \<Rightarrow> bool \<Rightarrow> rstate \<Rightarrow> rstate"
where
  "rewrite_canonical up field prefix status final_url soft404 st =
     (case dict_get (fst st) field of
        JStr cur_url \<Rightarrow>
          (case final_url of
             None \<Rightarrow> st
           | Some f \<Rightarrow>
               if f = [] then st
               else (case status of
                       None \<Rightarrow> st
                     | Some s \<Rightarrow>
                         if s \<in> DO_NOT_REWRITE_STATUSES then st
                         else if soft404 then st
                         else civicplus_rule up field prefix s f cur_url
                                (redirect_rule field prefix s f cur_url st)))
      | _ \<Rightarrow> st)"

text \<open>
  Lines 112 to 121: what is read from the row. \<^verbatim>\<open>int(float(status_str))\<close> is the
  parameter \<open>int_float\<close>, \<open>None\<close> when it raises (the \<^verbatim>\<open>except\<close> turns that into
  \<^verbatim>\<open>status = None\<close>).
\<close>

definition row_checked_at :: "string \<Rightarrow> row \<Rightarrow> string" where
  "row_checked_at now r =
     parse_iso_any now
       (if cell r ''checked_at_utc'' \<noteq> [] then cell r ''checked_at_utc''
        else cell r ''checked_at'')"

definition row_status :: "(string \<Rightarrow> int option) \<Rightarrow> row \<Rightarrow> int option" where
  "row_status int_float r =
     (let status_str = strip (cell r ''Status'')
      in if status_str \<noteq> [] then int_float status_str else None)"

definition nonempty :: "string \<Rightarrow> string option" where
  "nonempty s = (if s = [] then None else Some s)"

definition row_final_url :: "row \<Rightarrow> string option" where
  "row_final_url r = nonempty (strip (cell r ''Final URL''))"

definition row_soft404 :: "row \<Rightarrow> bool" where
  "row_soft404 r = (lower (strip (cell r ''Soft404'')) = ''true'')"

definition row_error :: "row \<Rightarrow> string option" where
  "row_error r = nonempty (strip (cell r ''Error''))"

text \<open>Lines 111 to 161: one row applied to the record it names.\<close>

definition apply_row ::
  "urlparse \<Rightarrow> (string \<Rightarrow> int option) \<Rightarrow> string \<Rightarrow> row \<Rightarrow> string \<Rightarrow> string \<Rightarrow> rstate
     \<Rightarrow> error + rstate"
where
  "apply_row up int_float now r field prefix st =
     (let rec1 = stamp_metadata prefix (row_status int_float r) (row_final_url r)
                   (row_checked_at now r) (row_soft404 r) (row_error r) (fst st)
      in case ensure_town_website up field rec1 of
           Inl e \<Rightarrow> Inl e
         | Inr rec2 \<Rightarrow>
             Inr (rewrite_canonical up field prefix (row_status int_float r) (row_final_url r)
                    (row_soft404 r) (rec2, snd st)))"

text \<open>
  Lines 93 to 96: \<^verbatim>\<open>by_town\<close> maps a town to its record object. The records are the
  elements of \<^verbatim>\<open>data\<close>, mutated in place, so the index of the element stands for the
  object; a later record of the same town replaces an earlier one.
\<close>

definition by_town :: "json list \<Rightarrow> string \<rightharpoonup> nat" where
  "by_town data =
     foldl (\<lambda>m (i, x).
              case x of
                JObj d \<Rightarrow> (case dict_get d ''Town'' of JStr t \<Rightarrow> m(t \<mapsto> i) | _ \<Rightarrow> m)
              | _ \<Rightarrow> m)
       Map.empty (enumerate 0 data)"

text \<open>Lines 102 to 161: one iteration of the loop over the rows.\<close>

definition process_row ::
  "urlparse \<Rightarrow> (string \<Rightarrow> int option) \<Rightarrow> (string \<rightharpoonup> nat) \<Rightarrow> string \<Rightarrow> row
     \<Rightarrow> json list \<times> nat \<Rightarrow> error + (json list \<times> nat)"
where
  "process_row up int_float idx now r st =
     (let town = strip (cell r ''Town'');
          field = strip (cell r ''Field'')
      in case field_to_prefix field of
           None \<Rightarrow> Inr st
         | Some prefix \<Rightarrow>
             if town = [] then Inr st
             else (case idx town of
                     None \<Rightarrow> Inr st
                   | Some i \<Rightarrow>
                       if i < length (fst st) then
                         (case fst st ! i of
                            JObj rec \<Rightarrow>
                              (case apply_row up int_float now r field prefix (rec, snd st) of
                                 Inl e \<Rightarrow> Inl e
                               | Inr st' \<Rightarrow> Inr ((fst st)[i := JObj (fst st')], snd st'))
                          | _ \<Rightarrow> Inr st)
                       else Inr st))"

text \<open>
  The loop. Each row comes with what \<^verbatim>\<open>datetime.now().isoformat()\<close> would return
  during its iteration.
\<close>

fun apply_rows ::
  "urlparse \<Rightarrow> (string \<Rightarrow> int option) \<Rightarrow> (string \<rightharpoonup> nat) \<Rightarrow> (string \<times> row) list
     \<Rightarrow> json list \<times> nat \<Rightarrow> error + (json list \<times> nat)"
where
  "apply_rows up int_float idx [] st = Inr st"
| "apply_rows up int_float idx ((now, r) # rs) st =
     (case process_row up int_float idx now r st of
        Inl e \<Rightarrow> Inl e
      | Inr st' \<Rightarrow> apply_rows up int_float idx rs st')"

subsection \<open>Files and the exit status\<close>

text \<open>
  The file system as the scripts use it: the text of each file, the paths that can be
  opened for writing, what goes wrong in a write once the file is open, and the paths read
  so far. \<^verbatim>\<open>print\<close> is left out.
\<close>

record world =
  files :: "string \<rightharpoonup> string"
  writable :: "string \<Rightarrow> bool"
  write_fault :: "string \<Rightarrow> string \<Rightarrow> (error \<times> string) option"
  reads :: "string list"

definition read_text :: "string \<Rightarrow> world \<Rightarrow> (error + string) \<times> world" where
  "read_text p w =
     (case files w p of
        None \<Rightarrow> (Inl OSError, w)
      | Some s \<Rightarrow> (Inr s, w\<lparr>reads := reads w @ [p]\<rparr>))"

text \<open>
  \<^verbatim>\<open>Path.write_text\<close> opens the file in mode \<^verbatim>\<open>'w'\<close>, which empties it, and then
  writes. When the file cannot be opened nothing changes. When the write raises after
  that (\<open>write_fault w p s = Some (e, left)\<close>), the file holds what had been written by
  then: nothing for a text that cannot be encoded, a lone surrogate for one, where
  \<^verbatim>\<open>UnicodeEncodeError\<close> is raised before any byte is written.
\<close>

definition write_text :: "string \<Rightarrow> string \<Rightarrow> world \<Rightarrow> (error + unit) \<times> world" where
  "write_text p s w =
     (if \<not> writable w p then (Inl OSError, w)
      else (case write_fault w p s of
              Some (e, left) \<Rightarrow> (Inl e, w\<lparr>files := (files w)(p \<mapsto> left)\<rparr>)
            | None \<Rightarrow> (Inr (), w\<lparr>files := (files w)(p \<mapsto> s)\<rparr>)))"

text \<open>
  \<^verbatim>\<open>raise SystemExit(main())\<close>: the status is what \<^verbatim>\<open>main\<close> returns; an exception
  that leaves \<^verbatim>\<open>main\<close> ends the interpreter with status 1.
\<close>

definition exit_status :: "error + int \<Rightarrow> int" where
  "exit_status r = (case r of Inl e \<Rightarrow> 1 | Inr c \<Rightarrow> c)"

text \<open>
  The library calls of \<^verbatim>\<open>main\<close> are parameters: \<open>loads\<close> is \<^verbatim>\<open>json.loads\<close>
  (\<open>None\<close> when it raises), \<open>dumps\<close> is \<^verbatim>\<open>json.dumps(data, indent=2, ensure_ascii=False)\<close>,
  \<open>read_csv\<close> gives the rows \<^verbatim>\<open>csv.DictReader\<close> yields, \<open>clock\<close> the time at each row.
  \<open>argv\<close> is \<^verbatim>\<open>sys.argv\<close>, the script name first.
\<close>

definition apply_main ::
  "urlparse \<Rightarrow> (string \<Rightarrow> int option) \<Rightarrow> (string \<Rightarrow> json option) \<Rightarrow> (json \<Rightarrow> string)
     \<Rightarrow> (string \<Rightarrow> row list option) \<Rightarrow> (nat \<Rightarrow> string) \<Rightarrow> string list \<Rightarrow> world
     \<Rightarrow> (error + int) \<times> world"
where
  "apply_main up int_float loads dumps read_csv clock argv w =
     (if length argv \<noteq> 4 then (Inr 2, w)
      else (case read_text (argv ! 1) w of
              (Inl e, w1) \<Rightarrow> (Inl e, w1)
            | (Inr txt, w1) \<Rightarrow>
                (case loads txt of
                   None \<Rightarrow> (Inl JSONDecodeError, w1)
                 | Some (JArr data) \<Rightarrow>
                     (case read_text (argv ! 2) w1 of
                        (Inl e, w2) \<Rightarrow> (Inl e, w2)
                      | (Inr csv, w2) \<Rightarrow>
                          (case read_csv csv of
                             None \<Rightarrow> (Inl CsvError, w2)
                           | Some rows \<Rightarrow>
                               (case apply_rows up int_float (by_town data)
                                       (zip (map clock [0..<length rows]) rows) (data, 0) of
                                  Inl e \<Rightarrow> (Inl e, w2)
                                | Inr st \<Rightarrow>
                                    (case write_text (argv ! 3) (dumps (JArr (fst st))) w2 of
                                       (Inl e, w3) \<Rightarrow> (Inl e, w3)
                                     | (Inr u, w3) \<Rightarrow> (Inr 0, w3)))))
                 | Some _ \<Rightarrow> (Inl ValueError, w1))))"

section \<open>migrate\_schema.py\<close>

text \<open>\<^verbatim>\<open>homepage_from_url\<close>: as \<^verbatim>\<open>homepage\<close>, inside \<^verbatim>\<open>try ... except Exception\<close>.\<close>

definition homepage_from_url :: "urlparse \<Rightarrow> json \<Rightarrow> string option" where
  "homepage_from_url up url =
     (case url of
        JStr s \<Rightarrow>
          if strip s = [] then None
          else (case up (strip s) of
                  None \<Rightarrow> None
                | Some u \<Rightarrow>
                    if scheme u = [] \<or> netloc u = [] then None
                    else Some (scheme u @ ''://'' @ netloc u @ ''/''))
      | _ \<Rightarrow> None)"

definition is_str :: "json \<Rightarrow> bool" where
  "is_str v = (case v of JStr s \<Rightarrow> True | _ \<Rightarrow> False)"

text \<open>
  Lines 67 to 69 for \<open>key = ''Employment Page URL''\<close>, lines 71 to 73 for
  \<open>key = ''Application Form URL''\<close>: the two blocks differ in the key only.
\<close>

definition freeze_original :: "string \<Rightarrow> rstate \<Rightarrow> rstate" where
  "freeze_original key st =
     (if map_of (fst st) (key @ '' (original)'') = None \<and> is_str (dict_get (fst st) key)
      then (AList.update (key @ '' (original)'') (dict_get (fst st) key) (fst st), snd st + 1)
      else st)"

text \<open>Lines 52 to 64: the homepage of the town.\<close>

definition derive_home :: "urlparse \<Rightarrow> pydict \<Rightarrow> string option" where
  "derive_home up rec =
     (let town_site = dict_get rec ''Town Website'';
          home = (if is_str town_site then homepage_from_url up town_site else None)
      in case home of
           Some h \<Rightarrow> Some h
         | None \<Rightarrow>
             (case homepage_from_url up (dict_get rec ''Employment Page URL'') of
                Some h \<Rightarrow> Some h
              | None \<Rightarrow> homepage_from_url up (dict_get rec ''Application Form URL'')))"

definition set_town_website :: "urlparse \<Rightarrow> rstate \<Rightarrow> rstate" where
  "set_town_website up st =
     (case derive_home up (fst st) of
        None \<Rightarrow> st
      | Some h \<Rightarrow>
          if dict_get (fst st) ''Town Website'' \<noteq> JStr h
          then (AList.update ''Town Website'' (JStr h) (fst st), snd st + 1)
          else st)"

text \<open>Lines 52 to 73: the body of the loop for a record that is a dictionary.\<close>

definition migrate_record :: "urlparse \<Rightarrow> rstate \<Rightarrow> rstate" where
  "migrate_record up st =
     freeze_original ''Application Form URL''
       (freeze_original ''Employment Page URL'' (set_town_website up st))"

text \<open>Lines 48 to 73: the loop; an element that is not a dictionary is skipped.\<close>

fun migrate_all :: "urlparse \<Rightarrow> json list \<Rightarrow> nat \<Rightarrow> json list \<times> nat" where
  "migrate_all up [] changed = ([], changed)"
| "migrate_all up (x # xs) changed =
     (case x of
        JObj rec \<Rightarrow>
          (let st = migrate_record up (rec, changed);
               rest = migrate_all up xs (snd st)
           in (JObj (fst st) # fst rest, snd rest))
      | _ \<Rightarrow>
          (let rest = migrate_all up xs changed in (x # fst rest, snd rest)))"

definition migrate_main ::
  "urlparse \<Rightarrow> (string \<Rightarrow> json option) \<Rightarrow> (json \<Rightarrow> string) \<Rightarrow> string list \<Rightarrow> world
     \<Rightarrow> (error + int) \<times> world"
where
  "migrate_main up loads dumps argv w =
     (if length argv \<noteq> 3 then (Inr 2, w)
      else (case read_text (argv ! 1) w of
              (Inl e, w1) \<Rightarrow> (Inl e, w1)
            | (Inr txt, w1) \<Rightarrow>
                (case loads txt of
                   None \<Rightarrow> (Inl JSONDecodeError, w1)
                 | Some (JArr data) \<Rightarrow>
                     (case write_text (argv ! 2) (dumps (JArr (fst (migrate_all up data 0)))) w1 of
                        (Inl e, w2) \<Rightarrow> (Inl e, w2)
                      | (Inr u, w2) \<Rightarrow> (Inr 0, w2))
                 | Some _ \<Rightarrow> (Inl ValueError, w1))))"

section \<open>rediscover\_employment\_links.py\<close>

text \<open>
  The source holds the configuration of this script (lines 49 to 78) and none of its
  functions. The two constants below are lines 61 and 62; \<^verbatim>\<open>None\<close> and \<open>-1\<close> stand for
  an unset status and an error.
\<close>

definition REDISCOVER_IF_STATUS_IN :: "json set" where
  "REDISCOVER_IF_STATUS_IN = {JInt 404, JInt 410, JNull, JInt (- 1)}"

definition REDISCOVER_IF_SOFT404_TRUE :: bool where
  "REDISCOVER_IF_SOFT404_TRUE = True"

text \<open>
  Modelled from the spec: the test that a record's employment URL is broken, which the
  source does not contain. Section 4.1, Input: the current status code is one of 404, 410,
  absent, error-sentinel, or \<^verbatim>\<open>soft404\<close> is true. The status and the flag are the
  fields \<^verbatim>\<open>employment_url_status_code\<close> and \<^verbatim>\<open>employment_url_soft404\<close> that
  apply\_url\_check\_summary.py writes.
\<close>

definition employment_broken :: "pydict \<Rightarrow> bool" where
  "employment_broken rec =
     (dict_get rec ''employment_url_status_code'' \<in> REDISCOVER_IF_STATUS_IN \<or>
      (REDISCOVER_IF_SOFT404_TRUE \<and> dict_get rec ''employment_url_soft404'' = JBool True))"

text \<open>
  Modelled from the spec: the engine's treatment of one record, which the source does not
  contain. The engine's input is a record whose employment URL is broken; Steps 1 to 5 of
  section 4.1 (anchor, probing, crawl, vendor detection, application form), which fetch
  from the network, are the parameter \<open>steps\<close>.
\<close>

definition rediscover_record :: "(pydict \<Rightarrow> pydict) \<Rightarrow> pydict \<Rightarrow> pydict" where
  "rediscover_record steps rec = (if employment_broken rec then steps rec else rec)"

text \<open>
  Modelled from the spec: a scored candidate of Step 3, which the source does not contain.
  It is a link of the homepage (\<^verbatim>\<open>href\<close> and text, as the link extractor of section 6
  returns them) with the path of its URL and the score it was given. The scoring formula is
  not in the spec (section 9 leaves it open), so the score is part of the candidate.
\<close>

record candidate =
  href :: string
  link_text :: string
  url_path :: string
  score :: int

text \<open>
  Modelled from the spec: the order of the ranking of Step 3, which the source does not
  contain. ``Rank candidates by score descending; tie-break by shorter path'': the pair of
  the negated score and the length of the path, compared lexicographically.
\<close>

definition rank_key :: "candidate \<Rightarrow> int \<times> nat" where
  "rank_key c = (- score c, length (url_path c))"

text \<open>
  Modelled from the spec: the ranking of Step 3, which the source does not contain.
  ``... then by first-seen order in the document'': a stable sort of the links, given in
  document order, on \<open>rank_key\<close>.
\<close>

definition rank_candidates :: "candidate list \<Rightarrow> candidate list" where
  "rank_candidates cs = sort_key rank_key cs"

text \<open>
  Modelled from the spec: the choice of Step 3, which the source does not contain.
  ``Select the top-scoring candidate if its score exceeds a minimum threshold; otherwise
  the town is marked needs review (no change applied).''
\<close>

definition select_candidate :: "int \<Rightarrow> candidate list \<Rightarrow> candidate option" where
  "select_candidate threshold cs =
     (case rank_candidates cs of
        [] \<Rightarrow> None
      | b # rest \<Rightarrow> if threshold < score b then Some b else None)"

section \<open>An instance of the library parameters\<close>

text \<open>
  The examples need a concrete \<open>up\<close>. \<open>urlparse_plain\<close> follows \<^verbatim>\<open>urlsplit\<close> on a URL
  that has no query, fragment, parameters, brackets or control characters: the scheme is
  what stands before the first colon when that is a letter followed by scheme characters
  (lower-cased), the netloc is what follows \<^verbatim>\<open>//\<close> up to the next slash, the path is the
  rest. It never raises.
\<close>

definition is_alpha :: "char \<Rightarrow> bool" where
  "is_alpha c = (c \<in> set ''abcdefghijklmnopqrstuvwxyzABCDEFGHIJKLMNOPQRSTUVWXYZ'')"

definition is_scheme_char :: "char \<Rightarrow> bool" where
  "is_scheme_char c = (is_alpha c \<or> is_digit c \<or> c \<in> set ''+-.'')"

definition urlparse_plain :: urlparse where
  "urlparse_plain url =
     (let pre = takeWhile (\<lambda>c. c \<noteq> CHR '':'') url;
          has = (CHR '':'' \<in> set url \<and> pre \<noteq> [] \<and> is_alpha (hd pre) \<and> list_all is_scheme_char pre);
          rest = (if has then drop (length pre + 1) url else url);
          slashes = (take 2 rest = ''//'')
      in Some \<lparr>scheme = (if has then lower pre else []),
               netloc = (if slashes then takeWhile (\<lambda>c. c \<noteq> CHR ''/'') (drop 2 rest) else []),
               path = (if slashes then dropWhile (\<lambda>c. c \<noteq> CHR ''/'') (drop 2 rest) else rest)\<rparr>)"

text \<open>
  \<open>int_float_plain\<close> stands for \<^verbatim>\<open>int(float(s))\<close> on the status strings of the examples:
  a string of decimal digits is its number, anything else raises.
\<close>

definition digit_val :: "char \<Rightarrow> int" where
  "digit_val c = int (length (takeWhile (\<lambda>d. d \<noteq> c) ''0123456789''))"

definition int_float_plain :: "string \<Rightarrow> int option" where
  "int_float_plain s =
     (if s \<noteq> [] \<and> list_all is_digit s
      then Some (foldl (\<lambda>acc c. 10 * acc + digit_val c) 0 s)
      else None)"

section \<open>Example data\<close>

definition ashford :: pydict where
  "ashford =
     [(''Town'', JStr ''Ashford''),
      (''Town Website'', JStr ''http://ashford.gov/departments/hr''),
      (''Employment Page URL'', JStr ''http://ashford.gov/home/pages/jobs''),
      (''Application Form URL'', JStr ''http://ashford.gov/354/Application'')]"

text \<open>A row of the check summary for Ashford: the field, the status, the final URL, the soft-404 cell.\<close>

definition check_row :: "string \<Rightarrow> string \<Rightarrow> string \<Rightarrow> string \<Rightarrow> row" where
  "check_row field status final soft =
     [''Town'' \<mapsto> ''Ashford'', ''Field'' \<mapsto> field, ''Status'' \<mapsto> status,
      ''Final URL'' \<mapsto> final, ''Soft404'' \<mapsto> soft,
      ''checked_at_utc'' \<mapsto> ''2026-01-05T10:00:00'']"

text \<open>Ashford after a plain redirect of the employment page to \<^verbatim>\<open>https://ashford.gov/jobs\<close>.\<close>

definition ashford_redirected :: pydict where
  "ashford_redirected =
     [(''Town'', JStr ''Ashford''),
      (''Town Website'', JStr ''http://ashford.gov/''),
      (''Employment Page URL'', JStr ''https://ashford.gov/jobs''),
      (''Application Form URL'', JStr ''http://ashford.gov/354/Application''),
      (''employment_url_status_code'', JInt 200),
      (''employment_url_final'', JStr ''https://ashford.gov/jobs''),
      (''employment_url_last_checked_at'', JStr ''2026-01-05T10:00:00''),
      (''employment_url_soft404'', JBool False),
      (''employment_url_error'', JNull),
      (''employment_url_change_reason'', JStr ''redirect_canonicalized''),
      (''employment_url_confidence'', JInt 95)]"

text \<open>Ashford after the employment page moved to a page-id address.\<close>

definition ashford_pageid :: pydict where
  "ashford_pageid =
     [(''Town'', JStr ''Ashford''),
      (''Town Website'', JStr ''http://ashford.gov/''),
      (''Employment Page URL'', JStr ''https://ashford.gov/354/Employment-Opportunities''),
      (''Application Form URL'', JStr ''http://ashford.gov/354/Application''),
      (''employment_url_status_code'', JInt 200),
      (''employment_url_final'', JStr ''https://ashford.gov/354/Employment-Opportunities''),
      (''employment_url_last_checked_at'', JStr ''2026-01-05T10:00:00''),
      (''employment_url_soft404'', JBool False),
      (''employment_url_error'', JNull),
      (''employment_url_change_reason'', JStr ''civicplus_pageid_canonicalized''),
      (''employment_url_confidence'', JInt 95)]"

text \<open>Ashford after the application form, already at a page-id address, moved to another.\<close>

definition ashford_applied :: pydict where
  "ashford_applied =
     [(''Town'', JStr ''Ashford''),
      (''Town Website'', JStr ''http://ashford.gov/''),
      (''Employment Page URL'', JStr ''http://ashford.gov/home/pages/jobs''),
      (''Application Form URL'', JStr ''http://ashford.gov/355/Apply''),
      (''application_url_status_code'', JInt 200),
      (''application_url_final'', JStr ''http://ashford.gov/355/Apply''),
      (''application_url_last_checked_at'', JStr ''2026-01-05T10:00:00''),
      (''application_url_soft404'', JBool False),
      (''application_url_error'', JNull),
      (''application_url_change_reason'', JStr ''redirect_canonicalized''),
      (''application_url_confidence'', JInt 95)]"

text \<open>Ashford after a check that was answered with 403, and after one with no usable status.\<close>

definition ashford_blocked :: pydict where
  "ashford_blocked =
     [(''Town'', JStr ''Ashford''),
      (''Town Website'', JStr ''http://ashford.gov/''),
      (''Employment Page URL'', JStr ''http://ashford.gov/home/pages/jobs''),
      (''Application Form URL'', JStr ''http://ashford.gov/354/Application''),
      (''employment_url_status_code'', JInt 403),
      (''employment_url_final'', JStr ''https://ashford.gov/blocked''),
      (''employment_url_last_checked_at'', JStr ''2026-01-05T10:00:00''),
      (''employment_url_soft404'', JBool False),
      (''employment_url_error'', JNull)]"

definition ashford_unparsed :: pydict where
  "ashford_unparsed =
     [(''Town'', JStr ''Ashford''),
      (''Town Website'', JStr ''http://ashford.gov/''),
      (''Employment Page URL'', JStr ''http://ashford.gov/home/pages/jobs''),
      (''Application Form URL'', JStr ''http://ashford.gov/354/Application''),
      (''employment_url_status_code'', JNull),
      (''employment_url_final'', JStr ''https://ashford.gov/jobs''),
      (''employment_url_last_checked_at'', JStr ''2026-01-05T10:00:00''),
      (''employment_url_soft404'', JBool False),
      (''employment_url_error'', JNull)]"

text \<open>Ashford with no application form on record, before and after a check of that field.\<close>

definition ashford_no_form :: pydict where
  "ashford_no_form =
     [(''Town'', JStr ''Ashford''),
      (''Town Website'', JStr ''http://ashford.gov/''),
      (''Employment Page URL'', JStr ''http://ashford.gov/354/Employment''),
      (''Application Form URL'', JNull)]"

definition ashford_no_form_checked :: pydict where
  "ashford_no_form_checked =
     [(''Town'', JStr ''Ashford''),
      (''Town Website'', JStr ''http://ashford.gov/''),
      (''Employment Page URL'', JStr ''http://ashford.gov/354/Employment''),
      (''Application Form URL'', JNull),
      (''application_url_status_code'', JInt 200),
      (''application_url_final'', JStr ''http://ashford.gov/355/Apply''),
      (''application_url_last_checked_at'', JStr ''2026-01-05T10:00:00''),
      (''application_url_soft404'', JBool False),
      (''application_url_error'', JNull)]"

text \<open>A record whose stored Town Website has no scheme and is a deep path.\<close>

definition ashford_no_scheme :: pydict where
  "ashford_no_scheme =
     [(''Town'', JStr ''Ashford''), (''Town Website'', JStr ''www.ashford.gov/jobs'')]"

text \<open>
  The shape the spec gives a Town Website: a scheme, \<^verbatim>\<open>://\<close>, a host without a slash,
  and one closing slash.
\<close>

definition is_bare_homepage :: "string \<Rightarrow> bool" where
  "is_bare_homepage s =
     (let sch = takeWhile (\<lambda>c. c \<noteq> CHR '':'') s;
          rest = drop (length sch) s;
          host = butlast (drop 3 rest)
      in sch \<noteq> [] \<and> take 3 rest = ''://'' \<and> drop 3 rest \<noteq> [] \<and>
         last (drop 3 rest) = CHR ''/'' \<and> host \<noteq> [] \<and> CHR ''/'' \<notin> set host)"

text \<open>Steps of rediscovery that would empty the record they are given.\<close>

definition wipe :: "pydict \<Rightarrow> pydict" where
  "wipe rec = []"

text \<open>Two links of a homepage with the same score; the second has the shorter path.\<close>

definition jobs_deep :: candidate where
  "jobs_deep = \<lparr>href = ''http://ashford.gov/departments/hr/jobs'', link_text = ''Jobs'',
                 url_path = ''/departments/hr/jobs'', score = 10\<rparr>"

definition jobs_short :: candidate where
  "jobs_short = \<lparr>href = ''http://ashford.gov/jobs'', link_text = ''Job openings'',
                  url_path = ''/jobs'', score = 10\<rparr>"

text \<open>
  For the examples of \<^verbatim>\<open>main\<close>: \<open>loads_plain\<close> stands for \<^verbatim>\<open>json.loads\<close> on the two
  texts used, an empty object and an empty list, and raises on any other; \<open>dumps_plain\<close>
  writes the empty list; \<open>disk\<close> holds one dataset that is an object, not a list.
\<close>

definition loads_plain :: "string \<Rightarrow> json option" where
  "loads_plain s =
     (if s = ''{}'' then Some (JObj []) else if s = ''[]'' then Some (JArr []) else None)"

definition dumps_plain :: "json \<Rightarrow> string" where
  "dumps_plain j = (if j = JArr [] then ''[]'' else ''...'')"

definition disk :: world where
  "disk = \<lparr>files = [''towns.json'' \<mapsto> ''{}''], writable = (\<lambda>p. True),
             write_fault = (\<lambda>p s. None), reads = []\<rparr>"

section \<open>The two fields and their keys\<close>

lemma prefix_cases:
  "field_to_prefix field = Some prefix \<Longrightarrow>
     (field = ''Employment Page URL'' \<and> prefix = ''employment'') \<or>
     (field = ''Application Form URL'' \<and> prefix = ''application'')"
  by (auto simp: field_to_prefix_def split: if_splits)

lemma civicplus_rule_same: "civicplus_rule up field prefix s f f st = st"
  by (auto simp: civicplus_rule_def Let_def)

lemma civicplus_rule_high: "\<not> s < 400 \<Longrightarrow> civicplus_rule up field prefix s f cur st = st"
  by (simp add: civicplus_rule_def)

lemma stamp_metadata_frame:
  "k \<notin> {prefix @ ''_url_status_code'', prefix @ ''_url_final'', prefix @ ''_url_last_checked_at'',
         prefix @ ''_url_soft404'', prefix @ ''_url_error''} \<Longrightarrow>
   map_of (stamp_metadata prefix a b c d e rec) k = map_of rec k"
  by (simp add: stamp_metadata_def AList.update_conv')

lemma stamp_metadata_written:
  "map_of (stamp_metadata prefix a b c d e rec) (prefix @ ''_url_status_code'') = Some (opt_int a) \<and>
   map_of (stamp_metadata prefix a b c d e rec) (prefix @ ''_url_final'') = Some (opt_str b) \<and>
   map_of (stamp_metadata prefix a b c d e rec) (prefix @ ''_url_last_checked_at'') = Some (JStr c) \<and>
   map_of (stamp_metadata prefix a b c d e rec) (prefix @ ''_url_soft404'') = Some (JBool d) \<and>
   map_of (stamp_metadata prefix a b c d e rec) (prefix @ ''_url_error'') = Some (opt_str e)"
  by (simp add: stamp_metadata_def AList.update_conv')

lemma ensure_town_website_frame:
  "ensure_town_website up field rec = Inr rec2 \<Longrightarrow> k \<noteq> ''Town Website'' \<Longrightarrow>
   map_of rec2 k = map_of rec k"
  by (auto simp: ensure_town_website_def AList.update_conv'
      split: json.splits sum.splits option.splits)

lemma rewrite_canonical_frame:
  "k \<notin> {field, prefix @ ''_url_change_reason'', prefix @ ''_url_confidence''} \<Longrightarrow>
   map_of (fst (rewrite_canonical up field prefix status final_url soft404 st)) k = map_of (fst st) k"
  by (auto simp: rewrite_canonical_def redirect_rule_def civicplus_rule_def Let_def
      AList.update_conv' split: json.splits option.splits)

lemma dict_get_cong: "map_of d k = map_of d' k \<Longrightarrow> dict_get d k = dict_get d' k"
  by (simp add: dict_get_def)

lemma rewrite_canonical_idle:
  "\<not> (\<exists>cur f s. dict_get (fst st) field = JStr cur \<and> final_url = Some f \<and> f \<noteq> [] \<and>
         status = Some s \<and> s < 400 \<and> s \<noteq> 401 \<and> s \<noteq> 403 \<and> \<not> soft404 \<and> f \<noteq> cur) \<Longrightarrow>
   rewrite_canonical up field prefix status final_url soft404 st = st"
  by (auto simp: rewrite_canonical_def redirect_rule_def DO_NOT_REWRITE_STATUSES_def
      civicplus_rule_same civicplus_rule_high split: json.splits option.splits)

lemma rewrite_canonical_active:
  "dict_get (fst st) field = JStr cur \<Longrightarrow> f \<noteq> [] \<Longrightarrow> s \<noteq> 401 \<Longrightarrow> s \<noteq> 403 \<Longrightarrow>
   rewrite_canonical up field prefix (Some s) (Some f) False st =
     civicplus_rule up field prefix s f cur (redirect_rule field prefix s f cur st)"
  by (simp add: rewrite_canonical_def DO_NOT_REWRITE_STATUSES_def)

lemma redirect_rule_fired:
  assumes "field_to_prefix field = Some prefix" "s < 400" "f \<noteq> cur"
  shows "map_of (fst (redirect_rule field prefix s f cur st)) field = Some (JStr f) \<and>
         map_of (fst (redirect_rule field prefix s f cur st)) (prefix @ ''_url_change_reason'') =
           Some (JStr ''redirect_canonicalized'') \<and>
         map_of (fst (redirect_rule field prefix s f cur st)) (prefix @ ''_url_confidence'') =
           Some (JInt 95) \<and>
         snd (redirect_rule field prefix s f cur st) = snd st + 1"
  using prefix_cases [OF assms(1)] assms(2,3)
  by (auto simp: redirect_rule_def UPDATE_CANONICAL_ON_REDIRECT_def AList.update_conv')

lemma apply_row_error:
  "apply_row up int_float now r field prefix st = Inl e \<longleftrightarrow>
   ensure_town_website up field
     (stamp_metadata prefix (row_status int_float r) (row_final_url r) (row_checked_at now r)
        (row_soft404 r) (row_error r) (fst st)) = Inl e"
  by (simp add: apply_row_def Let_def split: sum.splits)

lemma apply_row_result:
  "apply_row up int_float now r field prefix st = Inr out \<longleftrightarrow>
   (\<exists>rec2. ensure_town_website up field
      (stamp_metadata prefix (row_status int_float r) (row_final_url r) (row_checked_at now r)
         (row_soft404 r) (row_error r) (fst st)) = Inr rec2 \<and>
      out = rewrite_canonical up field prefix (row_status int_float r) (row_final_url r)
              (row_soft404 r) (rec2, snd st))"
  by (auto simp: apply_row_def Let_def split: sum.splits)

lemma before_canonical_frame:
  assumes "field_to_prefix field = Some prefix"
    and "ensure_town_website up field (stamp_metadata prefix a b c d e rec) = Inr rec2"
  shows "map_of rec2 field = map_of rec field \<and>
         map_of rec2 (prefix @ ''_url_change_reason'') = map_of rec (prefix @ ''_url_change_reason'') \<and>
         map_of rec2 (prefix @ ''_url_confidence'') = map_of rec (prefix @ ''_url_confidence'')"
  using prefix_cases [OF assms(1)] ensure_town_website_frame [OF assms(2)]
  by (auto simp: stamp_metadata_frame)

lemma before_canonical_stamped:
  assumes "field_to_prefix field = Some prefix"
    and "ensure_town_website up field (stamp_metadata prefix a b c d e rec) = Inr rec2"
  shows "map_of rec2 (prefix @ ''_url_status_code'') = Some (opt_int a) \<and>
   map_of rec2 (prefix @ ''_url_final'') = Some (opt_str b) \<and>
   map_of rec2 (prefix @ ''_url_last_checked_at'') = Some (JStr c) \<and>
   map_of rec2 (prefix @ ''_url_soft404'') = Some (JBool d) \<and>
   map_of rec2 (prefix @ ''_url_error'') = Some (opt_str e)"
  using prefix_cases [OF assms(1)] ensure_town_website_frame [OF assms(2)]
    stamp_metadata_written [of prefix a b c d e rec]
  by auto

lemma after_canonical_stamped:
  assumes "field_to_prefix field = Some prefix"
    and "k \<in> {prefix @ ''_url_status_code'', prefix @ ''_url_final'', prefix @ ''_url_last_checked_at'',
         prefix @ ''_url_soft404'', prefix @ ''_url_error''}"
  shows "map_of (fst (rewrite_canonical up field prefix status final_url soft404 st)) k = map_of (fst st) k"
  using prefix_cases [OF assms(1)] assms(2)
  by (intro rewrite_canonical_frame) auto


lemma row_final_url_nonempty: "row_final_url r = Some f \<Longrightarrow> f \<noteq> []"
  by (auto simp: row_final_url_def nonempty_def split: if_splits)

lemma civicplus_rule_keeps:
  assumes "field_to_prefix field = Some prefix"
    and "map_of (fst st) field = Some (JStr f)"
    and "map_of (fst st) (prefix @ ''_url_confidence'') = Some (JInt 95)"
  shows "map_of (fst (civicplus_rule up field prefix s f cur st)) field = Some (JStr f) \<and>
         map_of (fst (civicplus_rule up field prefix s f cur st)) (prefix @ ''_url_confidence'') =
           Some (JInt 95) \<and>
         snd st \<le> snd (civicplus_rule up field prefix s f cur st)"
  using prefix_cases [OF assms(1)] assms(2,3)
  by (auto simp: civicplus_rule_def Let_def AList.update_conv')

lemma civicplus_rule_fired:
  assumes "field_to_prefix field = Some prefix" "s < 400" "f \<noteq> []"
    and "civicplus_pageid_path up f \<noteq> None" "civicplus_pageid_path up cur = None"
  shows "map_of (fst (civicplus_rule up field prefix s f cur st)) field = Some (JStr f) \<and>
         map_of (fst (civicplus_rule up field prefix s f cur st)) (prefix @ ''_url_change_reason'') =
           Some (JStr ''civicplus_pageid_canonicalized'') \<and>
         map_of (fst (civicplus_rule up field prefix s f cur st)) (prefix @ ''_url_confidence'') =
           Some (JInt 95) \<and>
         snd (civicplus_rule up field prefix s f cur st) = snd st + 1"
  using prefix_cases [OF assms(1)] assms(2-)
  by (auto simp: civicplus_rule_def Let_def UPDATE_CANONICAL_ON_CIVICPLUS_PAGEID_def
      AList.update_conv')

lemma civicplus_rule_skipped:
  "civicplus_pageid_path up cur \<noteq> None \<or> civicplus_pageid_path up f = None \<Longrightarrow>
   civicplus_rule up field prefix s f cur st = st"
  by (auto simp: civicplus_rule_def Let_def)

subsection \<open>The page-id pattern\<close>

lemma split_three:
  "p = take 1 p @ take k (drop 1 p) @ take 1 (drop (k + 1) p) @ drop (k + 2) p"
proof -
  have a: "p = take 1 p @ drop 1 p" by simp
  have b: "drop 1 p = take k (drop 1 p) @ drop (k + 1) p"
    using append_take_drop_id [of k "drop 1 p"] by (simp add: add.commute)
  have c: "drop (k + 1) p = take 1 (drop (k + 1) p) @ drop (k + 2) p"
    using append_take_drop_id [of 1 "drop (k + 1) p"] by (simp add: add.commute)
  show ?thesis using a b c by metis
qed

lemma civicplus_re_shape:
  "CIVICPLUS_PAGEID_RE p \<longleftrightarrow>
     (\<exists>ds c rest. p = ''/'' @ ds @ ''/'' @ c # rest \<and> 2 \<le> length ds \<and> length ds \<le> 6 \<and>
        (\<forall>d \<in> set ds. is_digit d) \<and> c \<noteq> CHR ''/'')"
proof
  assume "CIVICPLUS_PAGEID_RE p"
  then obtain k where kin: "k \<in> set [2..<7]" and k: "k + 3 \<le> length p" "p ! 0 = CHR ''/''"
    "\<forall>c \<in> set (take k (drop 1 p)). is_digit c" "p ! (k + 1) = CHR ''/''" "p ! (k + 2) \<noteq> CHR ''/''"
    unfolding CIVICPLUS_PAGEID_RE_def by blast
  from kin have kb: "2 \<le> k" "k \<le> 6" by auto
  let ?ds = "take k (drop 1 p)"
  have t1: "take 1 p = ''/''"
    using k(1,2) by (cases p) auto
  have t2: "take 1 (drop (k + 1) p) = ''/''"
    using k(1,4) by (simp add: take_Suc_conv_app_nth)
  have t3: "drop (k + 2) p = p ! (k + 2) # drop (k + 3) p"
    using k(1) Cons_nth_drop_Suc [of "k + 2" p] by (simp add: numeral_3_eq_3)
  have eq: "p = ''/'' @ ?ds @ ''/'' @ p ! (k + 2) # drop (k + 3) p"
    using split_three [of p k] unfolding t1 t2 t3 .
  have len: "length ?ds = k" using k(1) by simp
  show "\<exists>ds c rest. p = ''/'' @ ds @ ''/'' @ c # rest \<and> 2 \<le> length ds \<and> length ds \<le> 6 \<and>
        (\<forall>d \<in> set ds. is_digit d) \<and> c \<noteq> CHR ''/''"
  proof (intro exI conjI)
    show "p = ''/'' @ ?ds @ ''/'' @ p ! (k + 2) # drop (k + 3) p" by (rule eq)
    show "2 \<le> length ?ds" "length ?ds \<le> 6" unfolding len by (rule kb)+
    show "\<forall>d \<in> set ?ds. is_digit d" by (rule k(3))
    show "p ! (k + 2) \<noteq> CHR ''/''" by (rule k(5))
  qed
next
  assume "\<exists>ds c rest. p = ''/'' @ ds @ ''/'' @ c # rest \<and> 2 \<le> length ds \<and> length ds \<le> 6 \<and>
        (\<forall>d \<in> set ds. is_digit d) \<and> c \<noteq> CHR ''/''"
  then obtain ds c rest where p: "p = ''/'' @ ds @ ''/'' @ c # rest" and
    l: "2 \<le> length ds" "length ds \<le> 6" and d: "\<forall>d \<in> set ds. is_digit d" and c: "c \<noteq> CHR ''/''"
    by blast
  have 1: "length ds \<in> set [2..<7]" using l by (simp only: set_upt atLeastLessThan_iff) arith
  have 2: "length ds + 3 \<le> length p" by (simp add: p)
  have 3: "p ! 0 = CHR ''/''" by (simp add: p)
  have 4: "take (length ds) (drop 1 p) = ds" by (simp add: p)
  have 5: "p ! (length ds + 1) = CHR ''/''" by (simp add: p nth_append)
  have 6: "p ! (length ds + 2) = c" by (simp add: p nth_append)
  show "CIVICPLUS_PAGEID_RE p"
    unfolding CIVICPLUS_PAGEID_RE_def
  proof (rule bexI [OF _ 1], intro conjI)
    show "length ds + 3 \<le> length p" by (rule 2)
    show "p ! 0 = CHR ''/''" by (rule 3)
    show "\<forall>c \<in> set (take (length ds) (drop 1 p)). is_digit c" unfolding 4 by (rule d)
    show "p ! (length ds + 1) = CHR ''/''" by (rule 5)
    show "p ! (length ds + 2) \<noteq> CHR ''/''" unfolding 6 by (rule c)
  qed
qed

lemma civicplus_path_shape:
  "civicplus_pageid_path up u \<noteq> None \<longleftrightarrow>
     (\<exists>pr ds c rest. up u = Some pr \<and> path pr = ''/'' @ ds @ ''/'' @ c # rest \<and>
        2 \<le> length ds \<and> length ds \<le> 6 \<and> (\<forall>d \<in> set ds. is_digit d) \<and> c \<noteq> CHR ''/'')"
  by (cases "up u") (simp_all add: civicplus_pageid_path_def civicplus_re_shape)

lemma homepage_total:
  assumes "\<forall>u. up u \<noteq> None"
  shows "\<exists>h. homepage up v = Inr h"
proof (cases v)
  case (JStr s)
  from assms have "up (strip s) \<noteq> None" by (rule spec)
  then obtain y where "up (strip s) = Some y"
    by (cases "up (strip s)") simp_all
  then show ?thesis using JStr by (simp add: homepage_def)
qed (simp_all add: homepage_def)

lemma ensure_town_website_total:
  assumes "\<forall>u. up u \<noteq> None"
  shows "\<exists>rec2. ensure_town_website up field rec = Inr rec2"
proof -
  have "\<And>v. \<exists>h. homepage up v = Inr h"
    using homepage_total [OF assms] by simp
  then have "\<And>v e. homepage up v \<noteq> Inl e"
    by (metis sum.distinct(1))
  then show ?thesis
    by (simp add: ensure_town_website_def split: json.splits sum.splits option.splits)
qed

section \<open>The canonical URL rewrites of apply\_url\_check\_summary.py\<close>

text \<open>
  Claim C1. A row is applied to a record (\<open>apply_row\<close> returns). The redirect rule rewrites
  the canonical field exactly when the field holds a string, the final URL is not empty,
  the status is present, below 400 and neither 401 nor 403, the row is not a soft 404, and
  the final URL differs from the current one. When one of these fails, the field, the change
  reason and the confidence are as before the row and the counter of rewrites is unchanged.
  When all hold, the state \<open>mid\<close> that the redirect rule leaves has the field set to the
  final URL, the change reason \<^verbatim>\<open>redirect_canonicalized\<close> and the confidence 95, written
  together, with the counter one higher; the result of the row is the page-id rule applied
  to \<open>mid\<close>, which keeps the field and the confidence.
\<close>

theorem redirect_rewrite_exact:
  assumes pre: "field_to_prefix field = Some prefix"
    and run: "apply_row up int_float now r field prefix (rec, n) = Inr out"
  shows
    "(\<not> (\<exists>cur f s. dict_get rec field = JStr cur \<and> row_final_url r = Some f \<and> f \<noteq> [] \<and>
            row_status int_float r = Some s \<and> s < 400 \<and> s \<noteq> 401 \<and> s \<noteq> 403 \<and>
            \<not> row_soft404 r \<and> f \<noteq> cur)
        \<longrightarrow> map_of (fst out) field = map_of rec field \<and>
            map_of (fst out) (prefix @ ''_url_change_reason'') =
              map_of rec (prefix @ ''_url_change_reason'') \<and>
            map_of (fst out) (prefix @ ''_url_confidence'') =
              map_of rec (prefix @ ''_url_confidence'') \<and>
            snd out = n) \<and>
     (\<forall>cur f s. dict_get rec field = JStr cur \<and> row_final_url r = Some f \<and> f \<noteq> [] \<and>
            row_status int_float r = Some s \<and> s < 400 \<and> s \<noteq> 401 \<and> s \<noteq> 403 \<and>
            \<not> row_soft404 r \<and> f \<noteq> cur
        \<longrightarrow> (\<exists>rec2 mid. mid = redirect_rule field prefix s f cur (rec2, n) \<and>
               map_of (fst mid) field = Some (JStr f) \<and>
               map_of (fst mid) (prefix @ ''_url_change_reason'') =
                 Some (JStr ''redirect_canonicalized'') \<and>
               map_of (fst mid) (prefix @ ''_url_confidence'') = Some (JInt 95) \<and>
               snd mid = n + 1 \<and>
               out = civicplus_rule up field prefix s f cur mid) \<and>
            map_of (fst out) field = Some (JStr f) \<and>
            map_of (fst out) (prefix @ ''_url_confidence'') = Some (JInt 95) \<and>
            n < snd out)"
proof -
  let ?stamped = "stamp_metadata prefix (row_status int_float r) (row_final_url r)
      (row_checked_at now r) (row_soft404 r) (row_error r) rec"
  from run obtain rec2 where
    tw: "ensure_town_website up field ?stamped = Inr rec2" and
    out: "out = rewrite_canonical up field prefix (row_status int_float r) (row_final_url r)
                  (row_soft404 r) (rec2, n)"
    by (auto simp: apply_row_result)
  note frame = before_canonical_frame [OF pre tw]
  have cur2: "dict_get rec2 field = dict_get rec field"
    using frame by (simp add: dict_get_def)
  show ?thesis
  proof (intro conjI impI allI)
    assume no: "\<not> (\<exists>cur f s. dict_get rec field = JStr cur \<and> row_final_url r = Some f \<and> f \<noteq> [] \<and>
            row_status int_float r = Some s \<and> s < 400 \<and> s \<noteq> 401 \<and> s \<noteq> 403 \<and>
            \<not> row_soft404 r \<and> f \<noteq> cur)"
    have "out = (rec2, n)"
      unfolding out using no cur2 by (intro rewrite_canonical_idle) simp
    then show "map_of (fst out) field = map_of rec field"
      and "map_of (fst out) (prefix @ ''_url_change_reason'') =
              map_of rec (prefix @ ''_url_change_reason'')"
      and "map_of (fst out) (prefix @ ''_url_confidence'') =
              map_of rec (prefix @ ''_url_confidence'')"
      and "snd out = n"
      using frame by simp_all
  next
    fix cur f s
    assume h: "dict_get rec field = JStr cur \<and> row_final_url r = Some f \<and> f \<noteq> [] \<and>
            row_status int_float r = Some s \<and> s < 400 \<and> s \<noteq> 401 \<and> s \<noteq> 403 \<and>
            \<not> row_soft404 r \<and> f \<noteq> cur"
    let ?mid = "redirect_rule field prefix s f cur (rec2, n)"
    have fired: "map_of (fst ?mid) field = Some (JStr f) \<and>
         map_of (fst ?mid) (prefix @ ''_url_change_reason'') = Some (JStr ''redirect_canonicalized'') \<and>
         map_of (fst ?mid) (prefix @ ''_url_confidence'') = Some (JInt 95) \<and>
         snd ?mid = snd (rec2, n) + 1"
      using h by (intro redirect_rule_fired [OF pre]) simp_all
    have eq: "out = civicplus_rule up field prefix s f cur ?mid"
      unfolding out using h cur2 rewrite_canonical_active [of "(rec2, n)" field cur f s up prefix]
      by simp
    from fired eq
    show "\<exists>rec2 mid. mid = redirect_rule field prefix s f cur (rec2, n) \<and>
               map_of (fst mid) field = Some (JStr f) \<and>
               map_of (fst mid) (prefix @ ''_url_change_reason'') =
                 Some (JStr ''redirect_canonicalized'') \<and>
               map_of (fst mid) (prefix @ ''_url_confidence'') = Some (JInt 95) \<and>
               snd mid = n + 1 \<and>
               out = civicplus_rule up field prefix s f cur mid"
      by auto
    have keeps: "map_of (fst out) field = Some (JStr f) \<and>
         map_of (fst out) (prefix @ ''_url_confidence'') = Some (JInt 95) \<and>
         snd ?mid \<le> snd out"
      unfolding eq using fired by (intro civicplus_rule_keeps [OF pre]) simp_all
    then show "map_of (fst out) field = Some (JStr f)"
      and "map_of (fst out) (prefix @ ''_url_confidence'') = Some (JInt 95)"
      and "n < snd out"
      using fired by simp_all
  qed
qed

theorem redirect_rewrite_exact_witness:
  "field_to_prefix ''Employment Page URL'' = Some ''employment'' \<and>
   apply_row urlparse_plain int_float_plain ''2026-01-06T08:00:00''
     (check_row ''Employment Page URL'' ''200'' ''https://ashford.gov/jobs'' ''False'')
     ''Employment Page URL'' ''employment'' (ashford, 0) = Inr (ashford_redirected, 1) \<and>
   map_of ashford_redirected ''Employment Page URL'' = Some (JStr ''https://ashford.gov/jobs'') \<and>
   map_of ashford_redirected ''employment_url_confidence'' = Some (JInt 95)"
proof -
  let ?r = "check_row ''Employment Page URL'' ''200'' ''https://ashford.gov/jobs'' ''False''"
  have pre: "field_to_prefix ''Employment Page URL'' = Some ''employment''"
    by code_simp
  have run: "apply_row urlparse_plain int_float_plain ''2026-01-06T08:00:00'' ?r
      ''Employment Page URL'' ''employment'' (ashford, 0) = Inr (ashford_redirected, 1)"
    by code_simp
  have conds: "dict_get ashford ''Employment Page URL'' = JStr ''http://ashford.gov/home/pages/jobs'' \<and>
      row_final_url ?r = Some ''https://ashford.gov/jobs'' \<and> ''https://ashford.gov/jobs'' \<noteq> [] \<and>
      row_status int_float_plain ?r = Some 200 \<and> (200::int) < 400 \<and> (200::int) \<noteq> 401 \<and>
      (200::int) \<noteq> 403 \<and> \<not> row_soft404 ?r \<and>
      ''https://ashford.gov/jobs'' \<noteq> ''http://ashford.gov/home/pages/jobs''"
    by code_simp
  from redirect_rewrite_exact [OF pre run] conds
  have "map_of (fst (ashford_redirected, 1::nat)) ''Employment Page URL'' =
          Some (JStr ''https://ashford.gov/jobs'') \<and>
        map_of (fst (ashford_redirected, 1::nat)) (''employment'' @ ''_url_confidence'') =
          Some (JInt 95)"
    by blast
  then show ?thesis using pre run by simp
qed

text \<open>
  Claim C2, as amended: the record's canonical field holds a string. A row is applied to a
  record whose canonical field holds the string \<open>cur\<close>; the status is present, below 400 and neither 401 nor 403, the row is not a soft 404 and its
  final URL \<open>f\<close> is not empty. \<open>mid\<close> is the state the redirect rule leaves. If the path of
  \<open>f\<close> matches the page-id pattern and the path of \<open>cur\<close> does not, the result has the
  field set to \<open>f\<close>, the change reason \<^verbatim>\<open>civicplus_pageid_canonicalized\<close> and the
  confidence 95, with the counter one above that of \<open>mid\<close>. If the path of \<open>cur\<close> matches
  already, or that of \<open>f\<close> does not, the page-id rule changes nothing: the result is \<open>mid\<close>.
  A URL matches when \<^verbatim>\<open>urlparse\<close> returns and the path is a slash, two to six digits, a
  slash and a character that is not a slash, followed by anything.
\<close>

theorem civicplus_rewrite:
  assumes pre: "field_to_prefix field = Some prefix"
    and run: "apply_row up int_float now r field prefix (rec, n) = Inr out"
    and cur: "dict_get rec field = JStr cur"
    and fin: "row_final_url r = Some f"
    and st: "row_status int_float r = Some s" "s < 400" "s \<noteq> 401" "s \<noteq> 403"
    and soft: "\<not> row_soft404 r"
  shows
    "(\<exists>rec2 mid. mid = redirect_rule field prefix s f cur (rec2, n) \<and>
        (civicplus_pageid_path up f \<noteq> None \<and> civicplus_pageid_path up cur = None \<longrightarrow>
           map_of (fst out) field = Some (JStr f) \<and>
           map_of (fst out) (prefix @ ''_url_change_reason'') =
             Some (JStr ''civicplus_pageid_canonicalized'') \<and>
           map_of (fst out) (prefix @ ''_url_confidence'') = Some (JInt 95) \<and>
           snd out = snd mid + 1) \<and>
        (civicplus_pageid_path up cur \<noteq> None \<or> civicplus_pageid_path up f = None \<longrightarrow>
           out = mid)) \<and>
     (\<forall>u. civicplus_pageid_path up u \<noteq> None \<longleftrightarrow>
        (\<exists>pr ds c rest. up u = Some pr \<and> path pr = ''/'' @ ds @ ''/'' @ c # rest \<and>
           2 \<le> length ds \<and> length ds \<le> 6 \<and> (\<forall>d \<in> set ds. is_digit d) \<and> c \<noteq> CHR ''/''))"
proof -
  from run obtain rec2 where
    out: "out = rewrite_canonical up field prefix (row_status int_float r) (row_final_url r)
                  (row_soft404 r) (rec2, n)" and
    tw: "ensure_town_website up field
      (stamp_metadata prefix (row_status int_float r) (row_final_url r) (row_checked_at now r)
         (row_soft404 r) (row_error r) rec) = Inr rec2"
    by (auto simp: apply_row_result)
  have cur2: "dict_get rec2 field = JStr cur"
    using before_canonical_frame [OF pre tw] cur by (simp add: dict_get_def)
  have f: "f \<noteq> []" using fin by (rule row_final_url_nonempty)
  let ?mid = "redirect_rule field prefix s f cur (rec2, n)"
  have eq: "out = civicplus_rule up field prefix s f cur ?mid"
    unfolding out using cur2 f st soft fin
      rewrite_canonical_active [of "(rec2, n)" field cur f s up prefix]
    by simp
  have fire: "civicplus_pageid_path up f \<noteq> None \<and> civicplus_pageid_path up cur = None \<longrightarrow>
           map_of (fst out) field = Some (JStr f) \<and>
           map_of (fst out) (prefix @ ''_url_change_reason'') =
             Some (JStr ''civicplus_pageid_canonicalized'') \<and>
           map_of (fst out) (prefix @ ''_url_confidence'') = Some (JInt 95) \<and>
           snd out = snd ?mid + 1"
    unfolding eq using civicplus_rule_fired [OF pre st(2) f, of up cur ?mid] by blast
  have skip: "civicplus_pageid_path up cur \<noteq> None \<or> civicplus_pageid_path up f = None \<longrightarrow>
           out = ?mid"
    unfolding eq using civicplus_rule_skipped [of up cur f field prefix s ?mid] by blast
  from fire skip show ?thesis
    using civicplus_path_shape [of up] by blast
qed

theorem civicplus_rewrite_witness:
  "field_to_prefix ''Application Form URL'' = Some ''application'' \<and>
   apply_row urlparse_plain int_float_plain ''2026-01-06T08:00:00''
     (check_row ''Application Form URL'' ''200'' ''http://ashford.gov/355/Apply'' ''no'')
     ''Application Form URL'' ''application'' (ashford, 0) = Inr (ashford_applied, 1) \<and>
   civicplus_pageid_path urlparse_plain ''http://ashford.gov/354/Application'' \<noteq> None \<and>
   (\<exists>rec2. (ashford_applied, 1) =
      redirect_rule ''Application Form URL'' ''application'' 200 ''http://ashford.gov/355/Apply''
        ''http://ashford.gov/354/Application'' (rec2, 0))"
proof -
  let ?r = "check_row ''Application Form URL'' ''200'' ''http://ashford.gov/355/Apply'' ''no''"
  have pre: "field_to_prefix ''Application Form URL'' = Some ''application''"
    by code_simp
  have run: "apply_row urlparse_plain int_float_plain ''2026-01-06T08:00:00'' ?r
      ''Application Form URL'' ''application'' (ashford, 0) = Inr (ashford_applied, 1)"
    by code_simp
  have cur: "dict_get ashford ''Application Form URL'' = JStr ''http://ashford.gov/354/Application''"
    by code_simp
  have fin: "row_final_url ?r = Some ''http://ashford.gov/355/Apply''"
    by code_simp
  have st: "row_status int_float_plain ?r = Some 200" "(200::int) < 400" "(200::int) \<noteq> 401"
    "(200::int) \<noteq> 403"
    by code_simp+
  have soft: "\<not> row_soft404 ?r"
    by code_simp
  have pid: "civicplus_pageid_path urlparse_plain ''http://ashford.gov/354/Application'' \<noteq> None"
    by code_simp
  from civicplus_rewrite [OF pre run cur fin st soft] pid
  have "\<exists>rec2. (ashford_applied, 1) =
      redirect_rule ''Application Form URL'' ''application'' 200 ''http://ashford.gov/355/Apply''
        ''http://ashford.gov/354/Application'' (rec2, 0)"
    by blast
  with pre run pid show ?thesis by blast
qed

text \<open>
  Claim C2 as the spec states it fails when the canonical field holds no string. Here the
  Application Form URL is \<^verbatim>\<open>null\<close>: the status is 200, the row is no soft 404, the final
  URL is not empty and its path matches the page-id pattern, and the current value has no
  path that matches (\<^verbatim>\<open>civicplus_pageid_path(None)\<close> is \<^verbatim>\<open>None\<close>). The test
  \<^verbatim>\<open>isinstance(cur_url, str)\<close> on line 140 keeps both rules from running: the field is
  still \<^verbatim>\<open>null\<close>, no reason is written and no rewrite is counted.
\<close>

theorem civicplus_rewrite_counterexample:
  "row_status int_float_plain
     (check_row ''Application Form URL'' ''200'' ''http://ashford.gov/355/Apply'' ''False'') =
     Some 200 \<and>
   \<not> row_soft404
     (check_row ''Application Form URL'' ''200'' ''http://ashford.gov/355/Apply'' ''False'') \<and>
   row_final_url
     (check_row ''Application Form URL'' ''200'' ''http://ashford.gov/355/Apply'' ''False'') =
     Some ''http://ashford.gov/355/Apply'' \<and>
   civicplus_pageid_path urlparse_plain ''http://ashford.gov/355/Apply'' =
     Some ''/355/Apply'' \<and>
   dict_get ashford_no_form ''Application Form URL'' = JNull \<and>
   apply_row urlparse_plain int_float_plain ''2026-01-06T08:00:00''
     (check_row ''Application Form URL'' ''200'' ''http://ashford.gov/355/Apply'' ''False'')
     ''Application Form URL'' ''application'' (ashford_no_form, 0) =
     Inr (ashford_no_form_checked, 0) \<and>
   map_of ashford_no_form_checked ''Application Form URL'' = Some JNull \<and>
   map_of ashford_no_form_checked ''application_url_change_reason'' = None \<and>
   map_of ashford_no_form_checked ''application_url_confidence'' = None"
  by code_simp

text \<open>
  Claim C9. When a row meets the conditions of both rules, the redirect rule fires first
  (the state \<open>mid\<close> has the reason \<^verbatim>\<open>redirect_canonicalized\<close> and the counter at
  \<open>n + 1\<close>), the page-id rule fires on \<open>mid\<close> with the current URL read before either
  rewrite, and the record ends with the field at the final URL, the reason
  \<^verbatim>\<open>civicplus_pageid_canonicalized\<close>, the confidence 95 and two rewrites counted.
\<close>

theorem both_rules_fire:
  assumes pre: "field_to_prefix field = Some prefix"
    and run: "apply_row up int_float now r field prefix (rec, n) = Inr out"
    and cur: "dict_get rec field = JStr cur"
    and fin: "row_final_url r = Some f" "f \<noteq> cur"
    and st: "row_status int_float r = Some s" "s < 400" "s \<noteq> 401" "s \<noteq> 403"
    and soft: "\<not> row_soft404 r"
    and pid: "civicplus_pageid_path up f \<noteq> None" "civicplus_pageid_path up cur = None"
  shows
    "(\<exists>rec2 mid. mid = redirect_rule field prefix s f cur (rec2, n) \<and>
        dict_get rec2 field = JStr cur \<and>
        snd mid = n + 1 \<and>
        map_of (fst mid) (prefix @ ''_url_change_reason'') = Some (JStr ''redirect_canonicalized'') \<and>
        out = civicplus_rule up field prefix s f cur mid) \<and>
     map_of (fst out) field = Some (JStr f) \<and>
     map_of (fst out) (prefix @ ''_url_change_reason'') =
       Some (JStr ''civicplus_pageid_canonicalized'') \<and>
     map_of (fst out) (prefix @ ''_url_confidence'') = Some (JInt 95) \<and>
     snd out = n + 2"
proof -
  from run obtain rec2 where
    out: "out = rewrite_canonical up field prefix (row_status int_float r) (row_final_url r)
                  (row_soft404 r) (rec2, n)" and
    tw: "ensure_town_website up field
      (stamp_metadata prefix (row_status int_float r) (row_final_url r) (row_checked_at now r)
         (row_soft404 r) (row_error r) rec) = Inr rec2"
    by (auto simp: apply_row_result)
  have cur2: "dict_get rec2 field = JStr cur"
    using before_canonical_frame [OF pre tw] cur by (simp add: dict_get_def)
  have f: "f \<noteq> []" using fin(1) by (rule row_final_url_nonempty)
  let ?mid = "redirect_rule field prefix s f cur (rec2, n)"
  have eq: "out = civicplus_rule up field prefix s f cur ?mid"
    unfolding out using cur2 f st soft fin
      rewrite_canonical_active [of "(rec2, n)" field cur f s up prefix]
    by simp
  have mid: "snd ?mid = n + 1"
    "map_of (fst ?mid) (prefix @ ''_url_change_reason'') = Some (JStr ''redirect_canonicalized'')"
    using redirect_rule_fired [OF pre st(2) fin(2), of "(rec2, n)"] by simp_all
  have fired: "map_of (fst out) field = Some (JStr f) \<and>
     map_of (fst out) (prefix @ ''_url_change_reason'') =
       Some (JStr ''civicplus_pageid_canonicalized'') \<and>
     map_of (fst out) (prefix @ ''_url_confidence'') = Some (JInt 95) \<and>
     snd out = snd ?mid + 1"
    unfolding eq by (rule civicplus_rule_fired [OF pre st(2) f pid])
  show ?thesis
    using cur2 mid eq fired by auto
qed

theorem both_rules_fire_witness:
  "field_to_prefix ''Employment Page URL'' = Some ''employment'' \<and>
   apply_row urlparse_plain int_float_plain ''2026-01-06T08:00:00''
     (check_row ''Employment Page URL'' ''200''
        ''https://ashford.gov/354/Employment-Opportunities'' ''False'')
     ''Employment Page URL'' ''employment'' (ashford, 0) = Inr (ashford_pageid, 2) \<and>
   map_of ashford_pageid ''employment_url_change_reason'' =
     Some (JStr ''civicplus_pageid_canonicalized'')"
proof -
  let ?f = "''https://ashford.gov/354/Employment-Opportunities''"
  let ?r = "check_row ''Employment Page URL'' ''200'' ?f ''False''"
  have pre: "field_to_prefix ''Employment Page URL'' = Some ''employment''"
    by code_simp
  have run: "apply_row urlparse_plain int_float_plain ''2026-01-06T08:00:00'' ?r
      ''Employment Page URL'' ''employment'' (ashford, 0) = Inr (ashford_pageid, 2)"
    by code_simp
  have cur: "dict_get ashford ''Employment Page URL'' = JStr ''http://ashford.gov/home/pages/jobs''"
    by code_simp
  have fin: "row_final_url ?r = Some ?f" "?f \<noteq> ''http://ashford.gov/home/pages/jobs''"
    by code_simp+
  have st: "row_status int_float_plain ?r = Some 200" "(200::int) < 400" "(200::int) \<noteq> 401"
    "(200::int) \<noteq> 403"
    by code_simp+
  have soft: "\<not> row_soft404 ?r"
    by code_simp
  have pid: "civicplus_pageid_path urlparse_plain ?f \<noteq> None"
    "civicplus_pageid_path urlparse_plain ''http://ashford.gov/home/pages/jobs'' = None"
    by code_simp+
  from both_rules_fire [OF pre run cur fin st soft pid]
  have "map_of (fst (ashford_pageid, 2::nat)) (''employment'' @ ''_url_change_reason'') =
          Some (JStr ''civicplus_pageid_canonicalized'')"
    by blast
  then show ?thesis using pre run by simp
qed

text \<open>
  Claim C3. A row whose status is 401 or 403 leaves the canonical field, the change reason
  and the confidence of the record as they were (present or absent) and does not count a
  rewrite; the five metadata fields hold the status, the final URL, the time of the check,
  the soft-404 flag and the error of the row.
\<close>

theorem blocked_status_frame:
  assumes pre: "field_to_prefix field = Some prefix"
    and run: "apply_row up int_float now r field prefix (rec, n) = Inr out"
    and st: "row_status int_float r = Some s" "s = 401 \<or> s = 403"
  shows
    "map_of (fst out) field = map_of rec field \<and>
     map_of (fst out) (prefix @ ''_url_change_reason'') =
       map_of rec (prefix @ ''_url_change_reason'') \<and>
     map_of (fst out) (prefix @ ''_url_confidence'') = map_of rec (prefix @ ''_url_confidence'') \<and>
     snd out = n \<and>
     map_of (fst out) (prefix @ ''_url_status_code'') = Some (JInt s) \<and>
     map_of (fst out) (prefix @ ''_url_final'') = Some (opt_str (row_final_url r)) \<and>
     map_of (fst out) (prefix @ ''_url_last_checked_at'') = Some (JStr (row_checked_at now r)) \<and>
     map_of (fst out) (prefix @ ''_url_soft404'') = Some (JBool (row_soft404 r)) \<and>
     map_of (fst out) (prefix @ ''_url_error'') = Some (opt_str (row_error r))"
proof -
  from run obtain rec2 where
    out: "out = rewrite_canonical up field prefix (row_status int_float r) (row_final_url r)
                  (row_soft404 r) (rec2, n)" and
    tw: "ensure_town_website up field
      (stamp_metadata prefix (row_status int_float r) (row_final_url r) (row_checked_at now r)
         (row_soft404 r) (row_error r) rec) = Inr rec2"
    by (auto simp: apply_row_result)
  have idle: "out = (rec2, n)"
    unfolding out using st by (intro rewrite_canonical_idle) auto
  show ?thesis
    unfolding idle
    using before_canonical_frame [OF pre tw] before_canonical_stamped [OF pre tw] st(1)
    by (simp add: opt_int_def)
qed

theorem blocked_status_frame_witness:
  "field_to_prefix ''Employment Page URL'' = Some ''employment'' \<and>
   apply_row urlparse_plain int_float_plain ''2026-01-06T08:00:00''
     (check_row ''Employment Page URL'' ''403'' ''https://ashford.gov/blocked'' ''False'')
     ''Employment Page URL'' ''employment'' (ashford, 0) = Inr (ashford_blocked, 0) \<and>
   map_of ashford_blocked ''Employment Page URL'' = map_of ashford ''Employment Page URL'' \<and>
   map_of ashford_blocked ''employment_url_status_code'' = Some (JInt 403)"
proof -
  let ?r = "check_row ''Employment Page URL'' ''403'' ''https://ashford.gov/blocked'' ''False''"
  have pre: "field_to_prefix ''Employment Page URL'' = Some ''employment''"
    by code_simp
  have run: "apply_row urlparse_plain int_float_plain ''2026-01-06T08:00:00'' ?r
      ''Employment Page URL'' ''employment'' (ashford, 0) = Inr (ashford_blocked, 0)"
    by code_simp
  have st: "row_status int_float_plain ?r = Some 403" "(403::int) = 401 \<or> (403::int) = 403"
    by code_simp+
  from blocked_status_frame [OF pre run st]
  have "map_of (fst (ashford_blocked, 0::nat)) ''Employment Page URL'' =
          map_of ashford ''Employment Page URL'' \<and>
        map_of (fst (ashford_blocked, 0::nat)) (''employment'' @ ''_url_status_code'') =
          Some (JInt 403)"
    by blast
  then show ?thesis using pre run by simp
qed

text \<open>
  Claim C10. When the status cell is empty after stripping, or \<^verbatim>\<open>int(float(...))\<close> raises
  on it, the status of the row is \<^verbatim>\<open>None\<close>. The only exception that can leave the row
  is the one of \<^verbatim>\<open>urlparse\<close> in the Town Website step, and there is none when
  \<^verbatim>\<open>urlparse\<close> never raises. When the row returns, the status field is \<^verbatim>\<open>null\<close>,
  the other four metadata fields are stamped, and the canonical field, the change reason,
  the confidence and the counter are unchanged.
\<close>

theorem unparsable_status:
  assumes pre: "field_to_prefix field = Some prefix"
    and bad: "strip (cell r ''Status'') = [] \<or> int_float (strip (cell r ''Status'')) = None"
  shows
    "row_status int_float r = None \<and>
     (\<forall>e. apply_row up int_float now r field prefix (rec, n) = Inl e \<longrightarrow>
        ensure_town_website up field
          (stamp_metadata prefix None (row_final_url r) (row_checked_at now r)
             (row_soft404 r) (row_error r) rec) = Inl e) \<and>
     ((\<forall>u. up u \<noteq> None) \<longrightarrow>
        (\<exists>out. apply_row up int_float now r field prefix (rec, n) = Inr out)) \<and>
     (\<forall>out. apply_row up int_float now r field prefix (rec, n) = Inr out \<longrightarrow>
        map_of (fst out) (prefix @ ''_url_status_code'') = Some JNull \<and>
        map_of (fst out) (prefix @ ''_url_final'') = Some (opt_str (row_final_url r)) \<and>
        map_of (fst out) (prefix @ ''_url_last_checked_at'') = Some (JStr (row_checked_at now r)) \<and>
        map_of (fst out) (prefix @ ''_url_soft404'') = Some (JBool (row_soft404 r)) \<and>
        map_of (fst out) (prefix @ ''_url_error'') = Some (opt_str (row_error r)) \<and>
        map_of (fst out) field = map_of rec field \<and>
        map_of (fst out) (prefix @ ''_url_change_reason'') =
          map_of rec (prefix @ ''_url_change_reason'') \<and>
        map_of (fst out) (prefix @ ''_url_confidence'') =
          map_of rec (prefix @ ''_url_confidence'') \<and>
        snd out = n)"
proof -
  have none: "row_status int_float r = None"
    using bad by (auto simp: row_status_def Let_def)
  have err: "\<forall>e. apply_row up int_float now r field prefix (rec, n) = Inl e \<longrightarrow>
        ensure_town_website up field
          (stamp_metadata prefix None (row_final_url r) (row_checked_at now r)
             (row_soft404 r) (row_error r) rec) = Inl e"
    by (simp add: apply_row_error none)
  have total: "(\<forall>u. up u \<noteq> None) \<longrightarrow>
        (\<exists>out. apply_row up int_float now r field prefix (rec, n) = Inr out)"
  proof
    assume "\<forall>u. up u \<noteq> None"
    from ensure_town_website_total [OF this] obtain rec2 where
      "ensure_town_website up field
        (stamp_metadata prefix (row_status int_float r) (row_final_url r) (row_checked_at now r)
           (row_soft404 r) (row_error r) rec) = Inr rec2"
      by blast
    then show "\<exists>out. apply_row up int_float now r field prefix (rec, n) = Inr out"
      by (simp add: apply_row_def Let_def)
  qed
  have res: "\<forall>out. apply_row up int_float now r field prefix (rec, n) = Inr out \<longrightarrow>
        map_of (fst out) (prefix @ ''_url_status_code'') = Some JNull \<and>
        map_of (fst out) (prefix @ ''_url_final'') = Some (opt_str (row_final_url r)) \<and>
        map_of (fst out) (prefix @ ''_url_last_checked_at'') = Some (JStr (row_checked_at now r)) \<and>
        map_of (fst out) (prefix @ ''_url_soft404'') = Some (JBool (row_soft404 r)) \<and>
        map_of (fst out) (prefix @ ''_url_error'') = Some (opt_str (row_error r)) \<and>
        map_of (fst out) field = map_of rec field \<and>
        map_of (fst out) (prefix @ ''_url_change_reason'') =
          map_of rec (prefix @ ''_url_change_reason'') \<and>
        map_of (fst out) (prefix @ ''_url_confidence'') =
          map_of rec (prefix @ ''_url_confidence'') \<and>
        snd out = n"
  proof (intro allI impI)
    fix out
    assume run: "apply_row up int_float now r field prefix (rec, n) = Inr out"
    then obtain rec2 where
      out: "out = rewrite_canonical up field prefix (row_status int_float r) (row_final_url r)
                  (row_soft404 r) (rec2, n)" and
      tw: "ensure_town_website up field
        (stamp_metadata prefix (row_status int_float r) (row_final_url r) (row_checked_at now r)
           (row_soft404 r) (row_error r) rec) = Inr rec2"
      by (auto simp: apply_row_result)
    have idle: "out = (rec2, n)"
      unfolding out none by (intro rewrite_canonical_idle) simp
    show "map_of (fst out) (prefix @ ''_url_status_code'') = Some JNull \<and>
        map_of (fst out) (prefix @ ''_url_final'') = Some (opt_str (row_final_url r)) \<and>
        map_of (fst out) (prefix @ ''_url_last_checked_at'') = Some (JStr (row_checked_at now r)) \<and>
        map_of (fst out) (prefix @ ''_url_soft404'') = Some (JBool (row_soft404 r)) \<and>
        map_of (fst out) (prefix @ ''_url_error'') = Some (opt_str (row_error r)) \<and>
        map_of (fst out) field = map_of rec field \<and>
        map_of (fst out) (prefix @ ''_url_change_reason'') =
          map_of rec (prefix @ ''_url_change_reason'') \<and>
        map_of (fst out) (prefix @ ''_url_confidence'') =
          map_of rec (prefix @ ''_url_confidence'') \<and>
        snd out = n"
      unfolding idle
      using before_canonical_frame [OF pre tw] before_canonical_stamped [OF pre tw] none
      by (simp add: opt_int_def)
  qed
  from none err total res show ?thesis by blast
qed

theorem unparsable_status_witness:
  "field_to_prefix ''Employment Page URL'' = Some ''employment'' \<and>
   int_float_plain (strip (cell (check_row ''Employment Page URL'' ''n/a''
      ''https://ashford.gov/jobs'' ''False'') ''Status'')) = None \<and>
   apply_row urlparse_plain int_float_plain ''2026-01-06T08:00:00''
     (check_row ''Employment Page URL'' ''n/a'' ''https://ashford.gov/jobs'' ''False'')
     ''Employment Page URL'' ''employment'' (ashford, 0) = Inr (ashford_unparsed, 0) \<and>
   map_of ashford_unparsed ''employment_url_status_code'' = Some JNull \<and>
   map_of ashford_unparsed ''Employment Page URL'' = map_of ashford ''Employment Page URL''"
proof -
  let ?r = "check_row ''Employment Page URL'' ''n/a'' ''https://ashford.gov/jobs'' ''False''"
  have pre: "field_to_prefix ''Employment Page URL'' = Some ''employment''"
    by code_simp
  have bad: "int_float_plain (strip (cell ?r ''Status'')) = None"
    by code_simp
  have run: "apply_row urlparse_plain int_float_plain ''2026-01-06T08:00:00'' ?r
      ''Employment Page URL'' ''employment'' (ashford, 0) = Inr (ashford_unparsed, 0)"
    by code_simp
  have bad': "strip (cell ?r ''Status'') = [] \<or> int_float_plain (strip (cell ?r ''Status'')) = None"
    using bad by (rule disjI2)
  from unparsable_status [where int_float = int_float_plain and up = urlparse_plain
      and r = "check_row ''Employment Page URL'' ''n/a'' ''https://ashford.gov/jobs'' ''False''"
      and now = "''2026-01-06T08:00:00''" and rec = ashford and n = 0, OF pre bad'] run
  have "map_of (fst (ashford_unparsed, 0::nat)) (''employment'' @ ''_url_status_code'') = Some JNull \<and>
        map_of (fst (ashford_unparsed, 0::nat)) ''Employment Page URL'' =
          map_of ashford ''Employment Page URL''"
    by blast
  then show ?thesis using pre bad run by simp
qed

section \<open>The frozen originals of migrate\_schema.py\<close>

lemma set_town_website_frame:
  "k \<noteq> ''Town Website'' \<Longrightarrow> map_of (fst (set_town_website up st)) k = map_of (fst st) k"
  by (simp add: set_town_website_def AList.update_conv' split: option.splits)

lemma freeze_original_map:
  "map_of (fst (freeze_original key st)) k =
     (if k = key @ '' (original)'' \<and> map_of (fst st) k = None \<and> is_str (dict_get (fst st) key)
      then Some (dict_get (fst st) key) else map_of (fst st) k)"
  by (auto simp: freeze_original_def AList.update_conv')

lemma freeze_original_get:
  "k \<noteq> key @ '' (original)'' \<Longrightarrow>
   dict_get (fst (freeze_original key st)) k = dict_get (fst st) k"
  by (simp add: dict_get_def freeze_original_map)

lemma migrate_record_url_map:
  assumes "key = ''Employment Page URL'' \<or> key = ''Application Form URL''"
  shows "map_of (fst (migrate_record up st)) key = map_of (fst st) key"
  using assms
  by (auto simp: migrate_record_def freeze_original_map set_town_website_frame)

lemma migrate_record_url:
  assumes "key = ''Employment Page URL'' \<or> key = ''Application Form URL''"
  shows "dict_get (fst (migrate_record up st)) key = dict_get (fst st) key"
  by (rule dict_get_cong [OF migrate_record_url_map [OF assms]])

lemma after_first_freeze:
  "map_of (fst (freeze_original ''Employment Page URL'' st)) ''Application Form URL (original)'' =
     map_of (fst st) ''Application Form URL (original)'' \<and>
   dict_get (fst (freeze_original ''Employment Page URL'' st)) ''Application Form URL'' =
     dict_get (fst st) ''Application Form URL''"
  by (simp add: freeze_original_map freeze_original_get)

lemma migrate_record_original:
  assumes "key = ''Employment Page URL'' \<or> key = ''Application Form URL''"
  shows "map_of (fst (migrate_record up st)) (key @ '' (original)'') =
     (case map_of (fst st) (key @ '' (original)'') of
        Some v \<Rightarrow> Some v
      | None \<Rightarrow> if is_str (dict_get (fst st) key) then Some (dict_get (fst st) key) else None)"
proof -
  let ?tw = "set_town_website up st"
  have tw: "\<And>k. k \<noteq> ''Town Website'' \<Longrightarrow> map_of (fst ?tw) k = map_of (fst st) k"
    by (rule set_town_website_frame)
  have twg: "\<And>k. k \<noteq> ''Town Website'' \<Longrightarrow> dict_get (fst ?tw) k = dict_get (fst st) k"
    by (rule dict_get_cong [OF tw])
  from assms show ?thesis
  proof
    assume k: "key = ''Employment Page URL''"
    show ?thesis
      unfolding k migrate_record_def
      by (simp add: freeze_original_map tw twg split: option.splits)
  next
    assume k: "key = ''Application Form URL''"
    show ?thesis
      unfolding k migrate_record_def
      by (simp add: freeze_original_map [of "''Application Form URL''"] after_first_freeze tw twg
          split: option.splits)
  qed
qed

lemma migrate_record_twice:
  assumes "key = ''Employment Page URL'' \<or> key = ''Application Form URL''"
  shows "map_of (fst (migrate_record up (fst (migrate_record up st), c'))) (key @ '' (original)'') =
         map_of (fst (migrate_record up st)) (key @ '' (original)'')"
proof -
  have "map_of (fst (migrate_record up (fst (migrate_record up st), c'))) (key @ '' (original)'') =
     (case map_of (fst (migrate_record up st)) (key @ '' (original)'') of
        Some v \<Rightarrow> Some v
      | None \<Rightarrow> if is_str (dict_get (fst st) key) then Some (dict_get (fst st) key) else None)"
    using migrate_record_original [OF assms, of up "(fst (migrate_record up st), c')"]
    unfolding fst_conv migrate_record_url [OF assms] .
  also have "\<dots> = map_of (fst (migrate_record up st)) (key @ '' (original)'')"
    by (simp add: migrate_record_original [OF assms] split: option.splits)
  finally show ?thesis .
qed

lemma set_town_website_fst:
  "fst (set_town_website up (rec, c)) = fst (set_town_website up (rec, 0))"
  by (simp add: set_town_website_def split: option.splits)

lemma freeze_original_fst:
  "fst st = fst st' \<Longrightarrow> fst (freeze_original key st) = fst (freeze_original key st')"
  by (simp add: freeze_original_def)

lemma migrate_record_fst:
  "fst (migrate_record up (rec, c)) = fst (migrate_record up (rec, 0))"
  unfolding migrate_record_def
  by (intro freeze_original_fst set_town_website_fst)

lemma migrate_all_map:
  "fst (migrate_all up data c) =
     map (\<lambda>x. case x of JObj rec \<Rightarrow> JObj (fst (migrate_record up (rec, 0))) | _ \<Rightarrow> x) data"
proof (induction data arbitrary: c)
  case Nil
  show ?case by simp
next
  case (Cons x xs)
  show ?case
  proof (cases x)
    case (JObj rec)
    then show ?thesis
      using migrate_record_fst [of up rec c] by (simp add: Cons.IH Let_def)
  qed (simp_all add: Cons.IH Let_def)
qed

lemma migrate_all_twice:
  assumes key: "key = ''Employment Page URL'' \<or> key = ''Application Form URL''"
  shows "map (\<lambda>x. case x of JObj d \<Rightarrow> map_of d (key @ '' (original)'') | _ \<Rightarrow> None)
         (fst (migrate_all up (fst (migrate_all up data c)) c')) =
       map (\<lambda>x. case x of JObj d \<Rightarrow> map_of d (key @ '' (original)'') | _ \<Rightarrow> None)
         (fst (migrate_all up data c))"
proof -
  let ?f = "\<lambda>x. case x of JObj rec \<Rightarrow> JObj (fst (migrate_record up (rec, 0))) | _ \<Rightarrow> x"
  let ?g = "\<lambda>x. case x of JObj d \<Rightarrow> map_of d (key @ '' (original)'') | _ \<Rightarrow> None"
  have one: "?g (?f (?f x)) = ?g (?f x)" for x
  proof (cases x)
    case (JObj rec)
    then show ?thesis
      using migrate_record_twice [OF key, of up "(rec, 0)" 0] by simp
  qed simp_all
  have "map ?g (map ?f (map ?f data)) = map ?g (map ?f data)"
    by (induction data) (simp_all only: list.map one)
  then show ?thesis
    by (simp only: migrate_all_map)
qed

text \<open>
  Claim C5. For either URL field, \<open>key\<close>, and its \<^verbatim>\<open>(original)\<close> key: a value already
  stored under the \<^verbatim>\<open>(original)\<close> key, \<^verbatim>\<open>null\<close> included, is what the migrated record
  holds there; when the key is absent, the migrated record holds the current URL there if
  that is a string and still lacks the key if not. Migrating the migrated record again
  leaves the \<^verbatim>\<open>(original)\<close> key as the first run left it, for one record and for every
  element of a dataset.
\<close>

theorem originals_write_once:
  assumes key: "key = ''Employment Page URL'' \<or> key = ''Application Form URL''"
  shows
    "(\<forall>v. map_of rec (key @ '' (original)'') = Some v \<longrightarrow>
        map_of (fst (migrate_record up (rec, c))) (key @ '' (original)'') = Some v) \<and>
     (map_of rec (key @ '' (original)'') = None \<longrightarrow>
        map_of (fst (migrate_record up (rec, c))) (key @ '' (original)'') =
          (if is_str (dict_get rec key) then Some (dict_get rec key) else None)) \<and>
     map_of (fst (migrate_record up (fst (migrate_record up (rec, c)), c'))) (key @ '' (original)'') =
       map_of (fst (migrate_record up (rec, c))) (key @ '' (original)'') \<and>
     map (\<lambda>x. case x of JObj d \<Rightarrow> map_of d (key @ '' (original)'') | _ \<Rightarrow> None)
         (fst (migrate_all up (fst (migrate_all up data c)) c')) =
       map (\<lambda>x. case x of JObj d \<Rightarrow> map_of d (key @ '' (original)'') | _ \<Rightarrow> None)
         (fst (migrate_all up data c))"
proof (intro conjI allI impI)
  fix v assume "map_of rec (key @ '' (original)'') = Some v"
  then show "map_of (fst (migrate_record up (rec, c))) (key @ '' (original)'') = Some v"
    by (simp add: migrate_record_original [OF key])
next
  assume "map_of rec (key @ '' (original)'') = None"
  then show "map_of (fst (migrate_record up (rec, c))) (key @ '' (original)'') =
          (if is_str (dict_get rec key) then Some (dict_get rec key) else None)"
    by (simp add: migrate_record_original [OF key])
next
  show "map_of (fst (migrate_record up (fst (migrate_record up (rec, c)), c'))) (key @ '' (original)'') =
       map_of (fst (migrate_record up (rec, c))) (key @ '' (original)'')"
    by (rule migrate_record_twice [OF key])
next
  show "map (\<lambda>x. case x of JObj d \<Rightarrow> map_of d (key @ '' (original)'') | _ \<Rightarrow> None)
         (fst (migrate_all up (fst (migrate_all up data c)) c')) =
       map (\<lambda>x. case x of JObj d \<Rightarrow> map_of d (key @ '' (original)'') | _ \<Rightarrow> None)
         (fst (migrate_all up data c))"
    by (rule migrate_all_twice [OF key])
qed

theorem originals_write_once_witness:
  "(''Employment Page URL'' = ''Employment Page URL'' \<or>
    ''Employment Page URL'' = ''Application Form URL'') \<and>
   map_of ashford ''Employment Page URL (original)'' = None \<and>
   map_of (fst (migrate_record urlparse_plain (ashford, 0))) ''Employment Page URL (original)'' =
     Some (JStr ''http://ashford.gov/home/pages/jobs'')"
proof -
  have key: "''Employment Page URL'' = ''Employment Page URL'' \<or>
    ''Employment Page URL'' = ''Application Form URL''"
    by simp
  have absent: "map_of ashford (''Employment Page URL'' @ '' (original)'') = None"
    by code_simp
  have cur: "is_str (dict_get ashford ''Employment Page URL'')"
    "dict_get ashford ''Employment Page URL'' = JStr ''http://ashford.gov/home/pages/jobs''"
    by code_simp+
  from originals_write_once [OF key, of ashford urlparse_plain 0] absent cur
  have "map_of (fst (migrate_record urlparse_plain (ashford, 0)))
          (''Employment Page URL'' @ '' (original)'') =
        Some (JStr ''http://ashford.gov/home/pages/jobs'')"
    by simp
  then show ?thesis using absent by simp
qed

section \<open>The Town Website\<close>

lemma homepage_from_url_iff:
  "homepage_from_url up v = Some h \<longleftrightarrow>
     (\<exists>s u. v = JStr s \<and> strip s \<noteq> [] \<and> up (strip s) = Some u \<and> scheme u \<noteq> [] \<and>
        netloc u \<noteq> [] \<and> h = scheme u @ ''://'' @ netloc u @ ''/'')"
proof (cases v)
  case (JStr s)
  show ?thesis
  proof (cases "up (strip s)")
    case None
    then show ?thesis using JStr by (simp add: homepage_from_url_def)
  next
    case (Some u)
    then show ?thesis using JStr by (auto simp: homepage_from_url_def)
  qed
qed (simp_all add: homepage_from_url_def)

lemma homepage_returns:
  "homepage up v = Inr h \<Longrightarrow> h = homepage_from_url up v"
  by (cases v)
    (auto simp: homepage_def homepage_from_url_def split: if_splits option.splits)

lemma homepage_from_url_not_str:
  "\<not> is_str v \<Longrightarrow> homepage_from_url up v = None"
  by (cases v) (simp_all add: homepage_from_url_def is_str_def)

lemma derive_home_order:
  "derive_home up rec =
     (case homepage_from_url up (dict_get rec ''Town Website'') of
        Some h \<Rightarrow> Some h
      | None \<Rightarrow>
          (case homepage_from_url up (dict_get rec ''Employment Page URL'') of
             Some h \<Rightarrow> Some h
           | None \<Rightarrow> homepage_from_url up (dict_get rec ''Application Form URL'')))"
  by (cases "is_str (dict_get rec ''Town Website'')")
    (simp_all add: derive_home_def homepage_from_url_not_str)

lemma migrate_record_town_website:
  "dict_get (fst (migrate_record up st)) ''Town Website'' =
     (case derive_home up (fst st) of
        None \<Rightarrow> dict_get (fst st) ''Town Website''
      | Some h \<Rightarrow> JStr h)"
proof -
  have "dict_get (fst (migrate_record up st)) ''Town Website'' =
        dict_get (fst (set_town_website up st)) ''Town Website''"
    unfolding migrate_record_def by (simp add: freeze_original_get)
  also have "\<dots> = (case derive_home up (fst st) of
        None \<Rightarrow> dict_get (fst st) ''Town Website'' | Some h \<Rightarrow> JStr h)"
    by (simp add: set_town_website_def dict_get_def AList.update_conv' split: option.splits)
  finally show ?thesis .
qed

lemma migrate_record_town_website_kept:
  assumes "derive_home up (fst st) = None"
  shows "map_of (fst (migrate_record up st)) ''Town Website'' = map_of (fst st) ''Town Website''"
proof -
  have "map_of (fst (migrate_record up st)) ''Town Website'' =
        map_of (fst (set_town_website up st)) ''Town Website''"
    unfolding migrate_record_def by (simp add: freeze_original_map)
  also have "\<dots> = map_of (fst st) ''Town Website''"
    using assms by (simp add: set_town_website_def)
  finally show ?thesis .
qed

lemma ensure_town_website_exact:
  assumes "ensure_town_website up field rec = Inr rec2"
  shows "dict_get rec2 ''Town Website'' =
     (if is_str (dict_get rec ''Town Website'')
      then (case homepage_from_url up (dict_get rec ''Town Website'') of
              Some h \<Rightarrow> JStr h | None \<Rightarrow> dict_get rec ''Town Website'')
      else (case homepage_from_url up (dict_get rec field) of
              Some h \<Rightarrow> JStr h | None \<Rightarrow> dict_get rec ''Town Website''))"
proof (cases "is_str (dict_get rec ''Town Website'')")
  case True
  then obtain w where w: "dict_get rec ''Town Website'' = JStr w"
    by (cases "dict_get rec ''Town Website''") (simp_all add: is_str_def)
  from assms w obtain h where h: "homepage up (JStr w) = Inr h"
    by (cases "homepage up (JStr w)") (simp_all add: ensure_town_website_def)
  have hh: "h = homepage_from_url up (JStr w)"
    using h by (rule homepage_returns)
  show ?thesis
    using assms w h hh True
    by (auto simp: ensure_town_website_def dict_get_def AList.update_conv' split: option.splits)
next
  case False
  show ?thesis
  proof (cases "is_str (dict_get rec field)")
    case no: False
    then have "homepage_from_url up (dict_get rec field) = None"
      by (rule homepage_from_url_not_str)
    moreover have "rec2 = rec"
      using assms False no
      by (cases "dict_get rec ''Town Website''"; cases "dict_get rec field")
        (simp_all add: ensure_town_website_def is_str_def)
    ultimately show ?thesis using False by simp
  next
    case yes: True
    then obtain cur where cur: "dict_get rec field = JStr cur"
      by (cases "dict_get rec field") (simp_all add: is_str_def)
    from assms False cur obtain h where h: "homepage up (JStr cur) = Inr h"
      by (cases "homepage up (JStr cur)"; cases "dict_get rec ''Town Website''")
        (simp_all add: ensure_town_website_def is_str_def)
    have hh: "h = homepage_from_url up (JStr cur)"
      using h by (rule homepage_returns)
    have "rec2 = AList.update ''Town Website''
        (case h of None \<Rightarrow> dict_get rec ''Town Website'' | Some x \<Rightarrow> JStr x) rec"
      using assms False cur h
      by (cases "dict_get rec ''Town Website''"; cases h)
        (simp_all add: ensure_town_website_def is_str_def)
    then show ?thesis
      using False cur hh
      by (simp add: dict_get_def AList.update_conv' split: option.splits)
  qed
qed

lemma apply_row_town_website:
  assumes pre: "field_to_prefix field = Some prefix"
    and run: "apply_row up int_float now r field prefix (rec, n) = Inr out"
  shows "\<exists>rec2. ensure_town_website up field
            (stamp_metadata prefix (row_status int_float r) (row_final_url r)
               (row_checked_at now r) (row_soft404 r) (row_error r) rec) = Inr rec2 \<and>
          dict_get (fst out) ''Town Website'' = dict_get rec2 ''Town Website''"
proof -
  from run obtain rec2 where
    out: "out = rewrite_canonical up field prefix (row_status int_float r) (row_final_url r)
                  (row_soft404 r) (rec2, n)" and
    tw: "ensure_town_website up field
      (stamp_metadata prefix (row_status int_float r) (row_final_url r) (row_checked_at now r)
         (row_soft404 r) (row_error r) rec) = Inr rec2"
    by (auto simp: apply_row_result)
  have "map_of (fst out) ''Town Website'' = map_of rec2 ''Town Website''"
    unfolding out using prefix_cases [OF pre]
    by (subst rewrite_canonical_frame) auto
  then show ?thesis using tw by (auto simp: dict_get_def)
qed

lemma stamp_metadata_untouched:
  assumes pre: "field_to_prefix field = Some prefix"
  shows "dict_get (stamp_metadata prefix a b c d e rec) ''Town Website'' =
           dict_get rec ''Town Website'' \<and>
         dict_get (stamp_metadata prefix a b c d e rec) field = dict_get rec field"
  using prefix_cases [OF pre]
  by (auto intro!: dict_get_cong stamp_metadata_frame)

text \<open>
  Claim C6, as amended. \<^verbatim>\<open>homepage_from_url\<close> gives a value a homepage exactly when the
  value is a string with something in it and \<^verbatim>\<open>urlparse\<close> returns, for the stripped
  string, a non-empty scheme and a non-empty netloc; the homepage is that scheme,
  \<^verbatim>\<open>://\<close>, that netloc and a slash. After \<^verbatim>\<open>migrate_schema\<close> the Town Website of a
  record is the homepage of the first of the stored Town Website, the Employment Page URL
  and the Application Form URL that has one; when none has, the stored Town Website is left
  as it is, present or absent. After \<^verbatim>\<open>apply_url_check_summary\<close> has applied a row it is
  the homepage of the stored Town Website when that is a string, and of the row's
  canonical URL when it is not; when that one has no homepage the stored value is kept.
\<close>

theorem town_website_derived_or_kept:
  assumes pre: "field_to_prefix field = Some prefix"
  shows
    "(\<forall>v h. homepage_from_url up v = Some h \<longleftrightarrow>
        (\<exists>s u. v = JStr s \<and> strip s \<noteq> [] \<and> up (strip s) = Some u \<and> scheme u \<noteq> [] \<and>
           netloc u \<noteq> [] \<and> h = scheme u @ ''://'' @ netloc u @ ''/'')) \<and>
     dict_get (fst (migrate_record up (rec, c))) ''Town Website'' =
       (case homepage_from_url up (dict_get rec ''Town Website'') of
          Some h \<Rightarrow> JStr h
        | None \<Rightarrow>
            (case homepage_from_url up (dict_get rec ''Employment Page URL'') of
               Some h \<Rightarrow> JStr h
             | None \<Rightarrow>
                 (case homepage_from_url up (dict_get rec ''Application Form URL'') of
                    Some h \<Rightarrow> JStr h
                  | None \<Rightarrow> dict_get rec ''Town Website''))) \<and>
     (homepage_from_url up (dict_get rec ''Town Website'') = None \<and>
      homepage_from_url up (dict_get rec ''Employment Page URL'') = None \<and>
      homepage_from_url up (dict_get rec ''Application Form URL'') = None \<longrightarrow>
        map_of (fst (migrate_record up (rec, c))) ''Town Website'' = map_of rec ''Town Website'') \<and>
     (\<forall>out. apply_row up int_float now r field prefix (rec, n) = Inr out \<longrightarrow>
        dict_get (fst out) ''Town Website'' =
          (if is_str (dict_get rec ''Town Website'')
           then (case homepage_from_url up (dict_get rec ''Town Website'') of
                   Some h \<Rightarrow> JStr h | None \<Rightarrow> dict_get rec ''Town Website'')
           else (case homepage_from_url up (dict_get rec field) of
                   Some h \<Rightarrow> JStr h | None \<Rightarrow> dict_get rec ''Town Website'')))"
proof (intro conjI allI impI)
  fix v h
  show "homepage_from_url up v = Some h \<longleftrightarrow>
        (\<exists>s u. v = JStr s \<and> strip s \<noteq> [] \<and> up (strip s) = Some u \<and> scheme u \<noteq> [] \<and>
           netloc u \<noteq> [] \<and> h = scheme u @ ''://'' @ netloc u @ ''/'')"
    by (rule homepage_from_url_iff)
next
  show "dict_get (fst (migrate_record up (rec, c))) ''Town Website'' =
       (case homepage_from_url up (dict_get rec ''Town Website'') of
          Some h \<Rightarrow> JStr h
        | None \<Rightarrow>
            (case homepage_from_url up (dict_get rec ''Employment Page URL'') of
               Some h \<Rightarrow> JStr h
             | None \<Rightarrow>
                 (case homepage_from_url up (dict_get rec ''Application Form URL'') of
                    Some h \<Rightarrow> JStr h
                  | None \<Rightarrow> dict_get rec ''Town Website'')))"
    by (simp add: migrate_record_town_website derive_home_order split: option.splits)
next
  assume "homepage_from_url up (dict_get rec ''Town Website'') = None \<and>
      homepage_from_url up (dict_get rec ''Employment Page URL'') = None \<and>
      homepage_from_url up (dict_get rec ''Application Form URL'') = None"
  then have "derive_home up (fst (rec, c)) = None"
    by (simp add: derive_home_order)
  then show "map_of (fst (migrate_record up (rec, c))) ''Town Website'' = map_of rec ''Town Website''"
    using migrate_record_town_website_kept [of up "(rec, c)"] by simp
next
  fix out
  assume run: "apply_row up int_float now r field prefix (rec, n) = Inr out"
  from apply_row_town_website [OF pre run] obtain rec2 where
    tw: "ensure_town_website up field
            (stamp_metadata prefix (row_status int_float r) (row_final_url r)
               (row_checked_at now r) (row_soft404 r) (row_error r) rec) = Inr rec2" and
    eq: "dict_get (fst out) ''Town Website'' = dict_get rec2 ''Town Website''"
    by blast
  show "dict_get (fst out) ''Town Website'' =
          (if is_str (dict_get rec ''Town Website'')
           then (case homepage_from_url up (dict_get rec ''Town Website'') of
                   Some h \<Rightarrow> JStr h | None \<Rightarrow> dict_get rec ''Town Website'')
           else (case homepage_from_url up (dict_get rec field) of
                   Some h \<Rightarrow> JStr h | None \<Rightarrow> dict_get rec ''Town Website''))"
    unfolding eq ensure_town_website_exact [OF tw]
    by (simp only: stamp_metadata_untouched [OF pre])
qed

theorem town_website_derived_or_kept_witness:
  "field_to_prefix ''Employment Page URL'' = Some ''employment'' \<and>
   homepage_from_url urlparse_plain (dict_get ashford ''Town Website'') =
     Some ''http://ashford.gov/'' \<and>
   dict_get (fst (migrate_record urlparse_plain (ashford, 0))) ''Town Website'' =
     JStr ''http://ashford.gov/''"
proof -
  have pre: "field_to_prefix ''Employment Page URL'' = Some ''employment''"
    by code_simp
  have home: "homepage_from_url urlparse_plain (dict_get ashford ''Town Website'') =
      Some ''http://ashford.gov/''"
    by code_simp
  from town_website_derived_or_kept [OF pre, of urlparse_plain ashford 0] home
  have "dict_get (fst (migrate_record urlparse_plain (ashford, 0))) ''Town Website'' =
          JStr ''http://ashford.gov/''"
    by simp
  then show ?thesis using pre home by simp
qed

text \<open>
  Claim C6 as the spec states it fails: a stored Town Website without a scheme, here a deep
  path, yields no homepage (\<^verbatim>\<open>urlparse\<close> gives an empty scheme and netloc), there is no
  other URL to derive one from, and both scripts leave the value as it is.
\<close>

theorem town_website_counterexample:
  "dict_get (fst (migrate_record urlparse_plain (ashford_no_scheme, 0))) ''Town Website'' =
     JStr ''www.ashford.gov/jobs'' \<and>
   ensure_town_website urlparse_plain ''Employment Page URL'' ashford_no_scheme =
     Inr ashford_no_scheme \<and>
   \<not> is_bare_homepage ''www.ashford.gov/jobs''"
  by code_simp

section \<open>Arguments, malformed input and the exit status\<close>

lemma exit_status_simps:
  "exit_status (Inl e) = 1" "exit_status (Inr c) = c"
  by (simp_all add: exit_status_def)

lemma read_text_ok:
  "files w p = Some s \<Longrightarrow> read_text p w = (Inr s, w\<lparr>reads := reads w @ [p]\<rparr>)"
  by (simp add: read_text_def)

lemma read_text_files:
  "files (snd (read_text p w)) = files w"
  by (simp add: read_text_def split: option.splits)

lemma write_text_ok:
  "writable w p \<Longrightarrow> write_fault w p s = None \<Longrightarrow>
   write_text p s w = (Inr (), w\<lparr>files := (files w)(p \<mapsto> s)\<rparr>)"
  by (simp add: write_text_def)

lemma write_text_frame:
  "q \<noteq> p \<Longrightarrow> files (snd (write_text p s w)) q = files w q"
  by (simp add: write_text_def split: option.splits prod.splits)

lemma migrate_main_usage:
  "length argv \<noteq> 3 \<Longrightarrow> migrate_main up loads dumps argv w = (Inr 2, w)"
  by (simp add: migrate_main_def)

lemma apply_main_usage:
  "length argv \<noteq> 4 \<Longrightarrow>
   apply_main up int_float loads dumps read_csv clock argv w = (Inr 2, w)"
  by (simp add: apply_main_def)

lemma migrate_main_not_list:
  assumes "length argv = 3" "files w (argv ! 1) = Some content" "loads content = Some j"
    "\<forall>d. j \<noteq> JArr d"
  shows "migrate_main up loads dumps argv w = (Inl ValueError, w\<lparr>reads := reads w @ [argv ! 1]\<rparr>)"
  using assms by (cases j) (simp_all add: migrate_main_def read_text_ok)

lemma apply_main_not_list:
  assumes "length argv = 4" "files w (argv ! 1) = Some content" "loads content = Some j"
    "\<forall>d. j \<noteq> JArr d"
  shows "apply_main up int_float loads dumps read_csv clock argv w =
           (Inl ValueError, w\<lparr>reads := reads w @ [argv ! 1]\<rparr>)"
  using assms by (cases j) (simp_all add: apply_main_def read_text_ok)

lemma migrate_main_success:
  assumes "length argv = 3" "files w (argv ! 1) = Some content" "loads content = Some (JArr data)"
    "writable w (argv ! 2)"
    "write_fault w (argv ! 2) (dumps (JArr (fst (migrate_all up data 0)))) = None"
  shows "migrate_main up loads dumps argv w =
           (Inr 0, w\<lparr>reads := reads w @ [argv ! 1],
                     files := (files w)(argv ! 2 \<mapsto> dumps (JArr (fst (migrate_all up data 0))))\<rparr>)"
  using assms by (simp add: migrate_main_def read_text_ok write_text_def)

lemma apply_main_success:
  assumes "length argv = 4" "files w (argv ! 1) = Some content" "loads content = Some (JArr data)"
    "files w (argv ! 2) = Some csv" "read_csv csv = Some rows"
    "apply_rows up int_float (by_town data) (zip (map clock [0..<length rows]) rows) (data, 0) = Inr st"
    "writable w (argv ! 3)" "write_fault w (argv ! 3) (dumps (JArr (fst st))) = None"
  shows "apply_main up int_float loads dumps read_csv clock argv w =
           (Inr 0, w\<lparr>reads := reads w @ [argv ! 1, argv ! 2],
                     files := (files w)(argv ! 3 \<mapsto> dumps (JArr (fst st)))\<rparr>)"
  using assms by (simp add: apply_main_def read_text_ok write_text_def)

lemma migrate_main_frame:
  assumes "q \<noteq> argv ! 2"
  shows "files (snd (migrate_main up loads dumps argv w)) q = files w q"
proof (cases "length argv = 3")
  case False
  then show ?thesis by (simp add: migrate_main_def)
next
  case True
  show ?thesis
  proof (cases "files w (argv ! 1)")
    case None
    then show ?thesis using True by (simp add: migrate_main_def read_text_def)
  next
    case (Some content)
    let ?w1 = "w\<lparr>reads := reads w @ [argv ! 1]\<rparr>"
    have r: "read_text (argv ! 1) w = (Inr content, ?w1)"
      using Some by (rule read_text_ok)
    show ?thesis
    proof (cases "loads content")
      case None
      then show ?thesis using True r by (simp add: migrate_main_def)
    next
      case j: (Some j)
      show ?thesis
      proof (cases j)
        case (JArr data)
        let ?out = "write_text (argv ! 2) (dumps (JArr (fst (migrate_all up data 0)))) ?w1"
        have "files (snd (migrate_main up loads dumps argv w)) q = files (snd ?out) q"
          using True r j JArr
          by (cases ?out; cases "fst ?out") (simp_all add: migrate_main_def)
        also have "\<dots> = files ?w1 q"
          using assms by (rule write_text_frame)
        finally show ?thesis by simp
      qed (use True r j in \<open>simp_all add: migrate_main_def\<close>)
    qed
  qed
qed

lemma apply_main_frame:
  assumes "q \<noteq> argv ! 3"
  shows "files (snd (apply_main up int_float loads dumps read_csv clock argv w)) q = files w q"
proof (cases "length argv = 4")
  case False
  then show ?thesis by (simp add: apply_main_def)
next
  case True
  show ?thesis
  proof (cases "files w (argv ! 1)")
    case None
    then show ?thesis using True by (simp add: apply_main_def read_text_def)
  next
    case (Some content)
    let ?w1 = "w\<lparr>reads := reads w @ [argv ! 1]\<rparr>"
    have r: "read_text (argv ! 1) w = (Inr content, ?w1)"
      using Some by (rule read_text_ok)
    show ?thesis
    proof (cases "loads content")
      case None
      then show ?thesis using True r by (simp add: apply_main_def)
    next
      case j: (Some j)
      show ?thesis
      proof (cases j)
        case (JArr data)
        show ?thesis
        proof (cases "files w (argv ! 2)")
          case None
          then show ?thesis using True r j JArr by (simp add: apply_main_def read_text_def)
        next
          case csv: (Some csv)
          let ?w2 = "?w1\<lparr>reads := reads ?w1 @ [argv ! 2]\<rparr>"
          have r2: "read_text (argv ! 2) ?w1 = (Inr csv, ?w2)"
            using csv by (simp add: read_text_def)
          show ?thesis
          proof (cases "read_csv csv")
            case None
            then show ?thesis using True r j JArr r2 by (simp add: apply_main_def)
          next
            case rows: (Some rows)
            show ?thesis
            proof (cases "apply_rows up int_float (by_town data)
                (zip (map clock [0..<length rows]) rows) (data, 0)")
              case (Inl e)
              then show ?thesis using True r j JArr r2 rows by (simp add: apply_main_def)
            next
              case (Inr st)
              let ?out = "write_text (argv ! 3) (dumps (JArr (fst st))) ?w2"
              have "files (snd (apply_main up int_float loads dumps read_csv clock argv w)) q =
                    files (snd ?out) q"
                using True r j JArr r2 rows Inr
                by (cases ?out; cases "fst ?out") (simp_all add: apply_main_def)
              also have "\<dots> = files ?w2 q"
                using assms by (rule write_text_frame)
              finally show ?thesis by simp
            qed
          qed
        qed
      qed (use True r j in \<open>simp_all add: apply_main_def\<close>)
    qed
  qed
qed

text \<open>
  Claim C7, for the two scripts whose \<^verbatim>\<open>main\<close> is in the source. With the wrong number of
  arguments \<^verbatim>\<open>main\<close> returns 2 and the world is unchanged: no file is read. When the
  dataset parses to something that is not a list, \<^verbatim>\<open>ValueError\<close> leaves \<^verbatim>\<open>main\<close>, the
  exit status is 1 and no file has changed. However a run ends, no file other than the
  output path has changed. When every step succeeds, the write included, the exit status is
  0 and the output file holds the dumped dataset.
\<close>

theorem exit_codes:
  "(length argv \<noteq> 3 \<longrightarrow> migrate_main up loads dumps argv w = (Inr 2, w)) \<and>
   (length argv \<noteq> 4 \<longrightarrow>
      apply_main up int_float loads dumps read_csv clock argv w = (Inr 2, w)) \<and>
   exit_status (Inr 2) = 2 \<and>
   (\<forall>content j. length argv = 3 \<and> files w (argv ! 1) = Some content \<and> loads content = Some j \<and>
      (\<forall>d. j \<noteq> JArr d) \<longrightarrow>
      fst (migrate_main up loads dumps argv w) = Inl ValueError \<and>
      exit_status (fst (migrate_main up loads dumps argv w)) = 1 \<and>
      files (snd (migrate_main up loads dumps argv w)) = files w) \<and>
   (\<forall>content j. length argv = 4 \<and> files w (argv ! 1) = Some content \<and> loads content = Some j \<and>
      (\<forall>d. j \<noteq> JArr d) \<longrightarrow>
      fst (apply_main up int_float loads dumps read_csv clock argv w) = Inl ValueError \<and>
      exit_status (fst (apply_main up int_float loads dumps read_csv clock argv w)) = 1 \<and>
      files (snd (apply_main up int_float loads dumps read_csv clock argv w)) = files w) \<and>
   (\<forall>q. q \<noteq> argv ! 2 \<longrightarrow> files (snd (migrate_main up loads dumps argv w)) q = files w q) \<and>
   (\<forall>q. q \<noteq> argv ! 3 \<longrightarrow>
      files (snd (apply_main up int_float loads dumps read_csv clock argv w)) q = files w q) \<and>
   (\<forall>content data. length argv = 3 \<and> files w (argv ! 1) = Some content \<and>
      loads content = Some (JArr data) \<and> writable w (argv ! 2) \<and>
      write_fault w (argv ! 2) (dumps (JArr (fst (migrate_all up data 0)))) = None \<longrightarrow>
      exit_status (fst (migrate_main up loads dumps argv w)) = 0 \<and>
      files (snd (migrate_main up loads dumps argv w)) =
        (files w)(argv ! 2 \<mapsto> dumps (JArr (fst (migrate_all up data 0))))) \<and>
   (\<forall>content data csv rows st. length argv = 4 \<and> files w (argv ! 1) = Some content \<and>
      loads content = Some (JArr data) \<and> files w (argv ! 2) = Some csv \<and>
      read_csv csv = Some rows \<and>
      apply_rows up int_float (by_town data) (zip (map clock [0..<length rows]) rows) (data, 0) =
        Inr st \<and>
      writable w (argv ! 3) \<and> write_fault w (argv ! 3) (dumps (JArr (fst st))) = None \<longrightarrow>
      exit_status (fst (apply_main up int_float loads dumps read_csv clock argv w)) = 0 \<and>
      files (snd (apply_main up int_float loads dumps read_csv clock argv w)) =
        (files w)(argv ! 3 \<mapsto> dumps (JArr (fst st))))"
proof (intro conjI allI impI)
  assume "length argv \<noteq> 3"
  then show "migrate_main up loads dumps argv w = (Inr 2, w)"
    by (rule migrate_main_usage)
next
  assume "length argv \<noteq> 4"
  then show "apply_main up int_float loads dumps read_csv clock argv w = (Inr 2, w)"
    by (rule apply_main_usage)
next
  show "exit_status (Inr 2) = 2"
    by (simp add: exit_status_simps)
next
  fix content j
  assume h: "length argv = 3 \<and> files w (argv ! 1) = Some content \<and> loads content = Some j \<and>
      (\<forall>d. j \<noteq> JArr d)"
  then have m: "migrate_main up loads dumps argv w =
      (Inl ValueError, w\<lparr>reads := reads w @ [argv ! 1]\<rparr>)"
    using migrate_main_not_list [of argv w content loads j up dumps] by blast
  show "fst (migrate_main up loads dumps argv w) = Inl ValueError"
    and "exit_status (fst (migrate_main up loads dumps argv w)) = 1"
    and "files (snd (migrate_main up loads dumps argv w)) = files w"
    unfolding m by (simp_all add: exit_status_simps)
next
  fix content j
  assume h: "length argv = 4 \<and> files w (argv ! 1) = Some content \<and> loads content = Some j \<and>
      (\<forall>d. j \<noteq> JArr d)"
  then have m: "apply_main up int_float loads dumps read_csv clock argv w =
      (Inl ValueError, w\<lparr>reads := reads w @ [argv ! 1]\<rparr>)"
    using apply_main_not_list [of argv w content loads j up int_float dumps read_csv clock] by blast
  show "fst (apply_main up int_float loads dumps read_csv clock argv w) = Inl ValueError"
    and "exit_status (fst (apply_main up int_float loads dumps read_csv clock argv w)) = 1"
    and "files (snd (apply_main up int_float loads dumps read_csv clock argv w)) = files w"
    unfolding m by (simp_all add: exit_status_simps)
next
  fix q assume "q \<noteq> argv ! 2"
  then show "files (snd (migrate_main up loads dumps argv w)) q = files w q"
    by (rule migrate_main_frame)
next
  fix q assume "q \<noteq> argv ! 3"
  then show "files (snd (apply_main up int_float loads dumps read_csv clock argv w)) q = files w q"
    by (rule apply_main_frame)
next
  fix content data
  assume h: "length argv = 3 \<and> files w (argv ! 1) = Some content \<and>
      loads content = Some (JArr data) \<and> writable w (argv ! 2) \<and>
      write_fault w (argv ! 2) (dumps (JArr (fst (migrate_all up data 0)))) = None"
  then have m: "migrate_main up loads dumps argv w =
           (Inr 0, w\<lparr>reads := reads w @ [argv ! 1],
                     files := (files w)(argv ! 2 \<mapsto> dumps (JArr (fst (migrate_all up data 0))))\<rparr>)"
    using migrate_main_success [of argv w content loads data dumps up] by blast
  show "exit_status (fst (migrate_main up loads dumps argv w)) = 0"
    and "files (snd (migrate_main up loads dumps argv w)) =
        (files w)(argv ! 2 \<mapsto> dumps (JArr (fst (migrate_all up data 0))))"
    unfolding m by (simp_all add: exit_status_simps)
next
  fix content data csv rows st
  assume h: "length argv = 4 \<and> files w (argv ! 1) = Some content \<and>
      loads content = Some (JArr data) \<and> files w (argv ! 2) = Some csv \<and>
      read_csv csv = Some rows \<and>
      apply_rows up int_float (by_town data) (zip (map clock [0..<length rows]) rows) (data, 0) =
        Inr st \<and>
      writable w (argv ! 3) \<and> write_fault w (argv ! 3) (dumps (JArr (fst st))) = None"
  then have m: "apply_main up int_float loads dumps read_csv clock argv w =
           (Inr 0, w\<lparr>reads := reads w @ [argv ! 1, argv ! 2],
                     files := (files w)(argv ! 3 \<mapsto> dumps (JArr (fst st)))\<rparr>)"
    using apply_main_success [where argv = argv and w = w and content = content and loads = loads
        and data = data and csv = csv and read_csv = read_csv and rows = rows and up = up
        and int_float = int_float and clock = clock and st = st and dumps = dumps]
    by blast
  show "exit_status (fst (apply_main up int_float loads dumps read_csv clock argv w)) = 0"
    and "files (snd (apply_main up int_float loads dumps read_csv clock argv w)) =
        (files w)(argv ! 3 \<mapsto> dumps (JArr (fst st)))"
    unfolding m by (simp_all add: exit_status_simps)
qed

theorem exit_codes_witness:
  "length [''migrate_schema.py'', ''towns.json'', ''out.json''] = 3 \<and>
   files disk ([''migrate_schema.py'', ''towns.json'', ''out.json''] ! 1) = Some ''{}'' \<and>
   loads_plain ''{}'' = Some (JObj []) \<and>
   exit_status (fst (migrate_main urlparse_plain loads_plain dumps_plain
      [''migrate_schema.py'', ''towns.json'', ''out.json''] disk)) = 1 \<and>
   files (snd (migrate_main urlparse_plain loads_plain dumps_plain
      [''migrate_schema.py'', ''towns.json'', ''out.json''] disk)) = files disk"
proof -
  let ?argv = "[''migrate_schema.py'', ''towns.json'', ''out.json'']"
  have h: "length ?argv = 3 \<and> files disk (?argv ! 1) = Some ''{}'' \<and>
      loads_plain ''{}'' = Some (JObj []) \<and> (\<forall>d. JObj [] \<noteq> JArr d)"
    by (simp add: disk_def loads_plain_def)
  from exit_codes [where argv = ?argv and w = disk and loads = loads_plain
      and up = urlparse_plain and dumps = dumps_plain] h
  have "exit_status (fst (migrate_main urlparse_plain loads_plain dumps_plain ?argv disk)) = 1 \<and>
        files (snd (migrate_main urlparse_plain loads_plain dumps_plain ?argv disk)) = files disk"
    by blast
  with h show ?thesis by simp
qed

section \<open>The rediscovery engine\<close>

lemma apply_row_stamped:
  assumes pre: "field_to_prefix field = Some prefix"
    and run: "apply_row up int_float now r field prefix (rec, n) = Inr out"
  shows "map_of (fst out) (prefix @ ''_url_status_code'') = Some (opt_int (row_status int_float r)) \<and>
         map_of (fst out) (prefix @ ''_url_soft404'') = Some (JBool (row_soft404 r))"
proof -
  from run obtain rec2 where
    out: "out = rewrite_canonical up field prefix (row_status int_float r) (row_final_url r)
                  (row_soft404 r) (rec2, n)" and
    tw: "ensure_town_website up field
      (stamp_metadata prefix (row_status int_float r) (row_final_url r) (row_checked_at now r)
         (row_soft404 r) (row_error r) rec) = Inr rec2"
    by (auto simp: apply_row_result)
  show ?thesis
    unfolding out
    using before_canonical_stamped [OF pre tw]
    by (simp add: after_canonical_stamped [OF pre])
qed

text \<open>
  Claim C4. A record whose employment status code is none of 404, 410, absent and \<open>-1\<close> and
  whose soft-404 flag is not true is not broken, and the engine returns it as it is,
  whatever the steps of rediscovery would do. In particular a record on which
  \<^verbatim>\<open>apply_url_check_summary\<close> has just stamped an employment check with a status other
  than 404, 410 and \<open>-1\<close> and no soft 404 is left unmodified.
\<close>

theorem healthy_record_untouched:
  "(dict_get rec ''employment_url_status_code'' \<notin> {JInt 404, JInt 410, JNull, JInt (- 1)} \<and>
    dict_get rec ''employment_url_soft404'' \<noteq> JBool True \<longrightarrow>
      \<not> employment_broken rec \<and> rediscover_record steps rec = rec) \<and>
   (\<forall>out s. apply_row up int_float now r ''Employment Page URL'' ''employment'' (rec, n) = Inr out \<and>
      row_status int_float r = Some s \<and> s \<notin> {404, 410, - 1} \<and> \<not> row_soft404 r \<longrightarrow>
      rediscover_record steps (fst out) = fst out)"
proof (intro conjI allI impI)
  assume h: "dict_get rec ''employment_url_status_code'' \<notin> {JInt 404, JInt 410, JNull, JInt (- 1)} \<and>
    dict_get rec ''employment_url_soft404'' \<noteq> JBool True"
  then show "\<not> employment_broken rec"
    by (simp add: employment_broken_def REDISCOVER_IF_STATUS_IN_def)
  then show "rediscover_record steps rec = rec"
    by (simp add: rediscover_record_def)
next
  fix out s
  assume h: "apply_row up int_float now r ''Employment Page URL'' ''employment'' (rec, n) = Inr out \<and>
      row_status int_float r = Some s \<and> s \<notin> {404, 410, - 1} \<and> \<not> row_soft404 r"
  have pre: "field_to_prefix ''Employment Page URL'' = Some ''employment''"
    by (simp add: field_to_prefix_def)
  from h have run: "apply_row up int_float now r ''Employment Page URL'' ''employment'' (rec, n) = Inr out"
    by simp
  from apply_row_stamped [OF pre run] h
  have "dict_get (fst out) ''employment_url_status_code'' = JInt s"
    and "dict_get (fst out) ''employment_url_soft404'' = JBool False"
    by (simp_all add: dict_get_def opt_int_def)
  with h have "\<not> employment_broken (fst out)"
    by (simp add: employment_broken_def REDISCOVER_IF_STATUS_IN_def)
  then show "rediscover_record steps (fst out) = fst out"
    by (simp add: rediscover_record_def)
qed

theorem healthy_record_untouched_witness:
  "dict_get ashford_redirected ''employment_url_status_code'' \<notin>
     {JInt 404, JInt 410, JNull, JInt (- 1)} \<and>
   dict_get ashford_redirected ''employment_url_soft404'' \<noteq> JBool True \<and>
   rediscover_record wipe ashford_redirected = ashford_redirected"
proof -
  have ok: "dict_get ashford_redirected ''employment_url_status_code'' \<notin>
     {JInt 404, JInt 410, JNull, JInt (- 1)} \<and>
     dict_get ashford_redirected ''employment_url_soft404'' \<noteq> JBool True"
    by (simp add: dict_get_def ashford_redirected_def)
  from healthy_record_untouched [of ashford_redirected wipe] ok
  have "rediscover_record wipe ashford_redirected = ashford_redirected"
    by blast
  with ok show ?thesis by simp
qed

lemma rank_key_le:
  "rank_key b \<le> rank_key c \<longleftrightarrow>
     score c < score b \<or> (score c = score b \<and> length (url_path b) \<le> length (url_path c))"
  by (auto simp: rank_key_def)

lemma rank_key_eq:
  "rank_key c = rank_key b \<longleftrightarrow>
     score c = score b \<and> length (url_path c) = length (url_path b)"
  by (auto simp: rank_key_def)

lemma rank_head_least:
  assumes "rank_candidates cs = b # rest" "c \<in> set cs"
  shows "rank_key b \<le> rank_key c"
proof -
  have "sorted (map rank_key (b # rest))"
    using assms(1) sorted_sort_key [of rank_key cs] by (simp add: rank_candidates_def)
  moreover have "c \<in> set (b # rest)"
    using assms by (metis rank_candidates_def set_sort)
  ultimately show ?thesis by auto
qed

lemma rank_head_first:
  assumes "rank_candidates cs = b # rest"
  shows "\<exists>i<length cs. cs ! i = b \<and> (\<forall>j<i. rank_key (cs ! j) \<noteq> rank_key b)"
proof -
  have "filter (\<lambda>y. rank_key y = rank_key b) cs =
        filter (\<lambda>y. rank_key y = rank_key b) (b # rest)"
    using assms sort_key_stable [of rank_key "rank_key b" cs] by (simp add: rank_candidates_def)
  then have "filter (\<lambda>y. rank_key y = rank_key b) cs =
             b # filter (\<lambda>y. rank_key y = rank_key b) rest"
    by simp
  then obtain us vs where cs: "cs = us @ b # vs" and us: "\<forall>u\<in>set us. rank_key u \<noteq> rank_key b"
    unfolding filter_eq_Cons_iff by blast
  have "length us < length cs" "cs ! length us = b"
    by (simp_all add: cs)
  moreover have "\<forall>j<length us. rank_key (cs ! j) \<noteq> rank_key b"
    using us by (simp add: cs nth_append)
  ultimately show ?thesis by blast
qed

text \<open>
  Claim C8. The candidate the crawl fallback selects is one of the links, scores above the
  threshold, has the highest score, has the shortest path among the links of that score, and
  comes first in the document among the links of that score and that path length. For two
  links of equal score above the threshold the one with the shorter path is selected, and
  the first when the paths are equally long.
\<close>

theorem crawl_tie_break:
  assumes sel: "select_candidate threshold cs = Some b"
  shows
    "b \<in> set cs \<and> threshold < score b \<and>
     (\<forall>c\<in>set cs. score c \<le> score b \<and>
        (score c = score b \<longrightarrow> length (url_path b) \<le> length (url_path c))) \<and>
     (\<exists>i<length cs. cs ! i = b \<and>
        (\<forall>j<i. \<not> (score (cs ! j) = score b \<and>
                    length (url_path (cs ! j)) = length (url_path b)))) \<and>
     (\<forall>a c. score a = score c \<and> threshold < score a \<longrightarrow>
        select_candidate threshold [a, c] =
          Some (if length (url_path c) < length (url_path a) then c else a))"
proof -
  from sel obtain rest where r: "rank_candidates cs = b # rest" and t: "threshold < score b"
    by (auto simp: select_candidate_def split: list.splits if_splits)
  have mem: "b \<in> set cs"
    using r by (metis list.set_intros(1) rank_candidates_def set_sort)
  have best: "\<forall>c\<in>set cs. score c \<le> score b \<and>
        (score c = score b \<longrightarrow> length (url_path b) \<le> length (url_path c))"
  proof (intro ballI)
    fix c assume "c \<in> set cs"
    from rank_head_least [OF r this]
    show "score c \<le> score b \<and>
        (score c = score b \<longrightarrow> length (url_path b) \<le> length (url_path c))"
      by (auto simp: rank_key_le)
  qed
  have first: "\<exists>i<length cs. cs ! i = b \<and>
        (\<forall>j<i. \<not> (score (cs ! j) = score b \<and>
                    length (url_path (cs ! j)) = length (url_path b)))"
    using rank_head_first [OF r] by (simp add: rank_key_eq)
  have two: "\<forall>a c. score a = score c \<and> threshold < score a \<longrightarrow>
        select_candidate threshold [a, c] =
          Some (if length (url_path c) < length (url_path a) then c else a)"
    by (auto simp: select_candidate_def rank_candidates_def rank_key_def)
  from mem t best first two show ?thesis by blast
qed

theorem crawl_tie_break_witness:
  "select_candidate 5 [jobs_deep, jobs_short] = Some jobs_short \<and>
   jobs_short \<in> set [jobs_deep, jobs_short] \<and> 5 < score jobs_short \<and>
   score jobs_deep \<le> score jobs_short"
proof -
  have sel: "select_candidate 5 [jobs_deep, jobs_short] = Some jobs_short"
    by code_simp
  from crawl_tie_break [OF sel]
  have "jobs_short \<in> set [jobs_deep, jobs_short] \<and> 5 < score jobs_short \<and>
        score jobs_deep \<le> score jobs_short"
    by simp
  with sel show ?thesis by simp
qed

end
